theory Spec2Isabelle
  imports Complex_Main "HOL-Library.Multiset" "HOL-Library.AList"
begin

section \<open>Document chunking (src/src/utils/document-parser.ts)\<close>

text \<open>
  JavaScript strings are modelled as HOL strings. \<open>String.prototype.trim\<close> strips the
  ECMAScript white space and line terminator code points; those below 256 are listed here
  (the HOL character type has no code point above 255).
\<close>

definition is_whitespace :: "char \<Rightarrow> bool" where
  "is_whitespace c = (of_char c \<in> {9::nat, 10, 11, 12, 13, 32, 160})"

definition trim :: "string \<Rightarrow> string" where
  "trim s = rev (dropWhile is_whitespace (rev (dropWhile is_whitespace s)))"

text \<open>
  \<open>slice(start, end)\<close> of JavaScript strings and arrays: a negative index counts from the
  end, both indices are clamped to the length, and an empty range gives the empty result.
\<close>

definition slice :: "'a list \<Rightarrow> int \<Rightarrow> int \<Rightarrow> 'a list" where
  "slice xs start end =
     (let len = int (length xs);
          from = (if start < 0 then max (len + start) 0 else min start len);
          to = (if end < 0 then max (len + end) 0 else min end len)
      in take (nat (to - from)) (drop (nat from) xs))"

definition MAX_CHUNKS :: nat where
  "MAX_CHUNKS = 10000"

text \<open>One pass of the \<open>while\<close> loop of \<open>chunkText\<close>: the end of the window that starts at
  \<open>start\<close>, and the start of the next window (lines 66 and 74 to 81).\<close>

definition window_end :: "string \<Rightarrow> int \<Rightarrow> int \<Rightarrow> int" where
  "window_end text chunkSize start = min (start + chunkSize) (int (length text))"

definition next_start :: "string \<Rightarrow> int \<Rightarrow> int \<Rightarrow> int \<Rightarrow> int" where
  "next_start text chunkSize overlap start =
     (let end = window_end text chunkSize start;
          nextStart = end - overlap
      in if nextStart \<le> start then end else nextStart)"

text \<open>Lines 69 to 71: only a chunk that is not empty after trimming is kept.\<close>

definition push_chunk :: "string list \<Rightarrow> string \<Rightarrow> string list" where
  "push_chunk chunks chunk = (if length chunk > 0 then chunks @ [chunk] else chunks)"

text \<open>The loop itself, with its three exits: the loop condition, the iteration guard and
  the final \<open>start >= text.length\<close> check. The state is \<open>start\<close>, \<open>chunks\<close> and
  \<open>iterations\<close>.\<close>

function chunk_loop :: "string \<Rightarrow> int \<Rightarrow> int \<Rightarrow> int \<Rightarrow> string list \<Rightarrow> nat \<Rightarrow> string list" where
  "chunk_loop text chunkSize overlap start chunks iterations =
     (if start < int (length text) \<and> length chunks < MAX_CHUNKS then
        (if iterations + 1 > MAX_CHUNKS * 2 then chunks
         else
           let end = window_end text chunkSize start;
               chunk = trim (slice text start end);
               chunks' = push_chunk chunks chunk;
               start' = next_start text chunkSize overlap start
           in if start' \<ge> int (length text) then chunks'
              else chunk_loop text chunkSize overlap start' chunks' (iterations + 1))
      else chunks)"
  by pat_completeness auto
termination
  by (relation "measure (\<lambda>(text, chunkSize, overlap, start, chunks, iterations).
        Suc (MAX_CHUNKS * 2) - iterations)") auto

text \<open>Lines 49 to 51, the validation of the parameters. \<open>Math.floor(chunkSize * 0.2)\<close>
  on an integer is the integer quotient by 5.\<close>

definition valid_chunkSize :: "int \<Rightarrow> int" where
  "valid_chunkSize chunkSize = (if chunkSize \<le> 0 then 1000 else chunkSize)"

definition valid_overlap :: "int \<Rightarrow> int \<Rightarrow> int" where
  "valid_overlap chunkSize overlap =
     (let chunkSize1 = valid_chunkSize chunkSize;
          overlap1 = (if overlap < 0 then 0 else overlap)
      in if overlap1 \<ge> chunkSize1 then chunkSize1 div 5 else overlap1)"

definition chunkText :: "string \<Rightarrow> int \<Rightarrow> int \<Rightarrow> string list" where
  "chunkText text chunkSize overlap =
     chunk_loop text (valid_chunkSize chunkSize) (valid_overlap chunkSize overlap) 0 [] 0"



section \<open>Vector store (services/embeddings/vector-store.ts, in src/unnamed/part_001)\<close>

text \<open>JavaScript numbers are modelled as reals: rounding, infinities and NaN of the
  floating-point arithmetic are outside the model.\<close>

record DocumentChunk =
  chunk_id :: string
  chunk_content :: string
  embedding :: "real list option"
  chunk_metadata :: "(string \<times> string) list"

record VectorSearchResult =
  chunk :: DocumentChunk
  score :: real

datatype error = VectorsLengthMismatch

text \<open>The \<open>for\<close> loop of \<open>cosineSimilarity\<close> (lines 116 to 120), run after the length check,
  so that every index read is in range of both vectors.\<close>

function cosine_loop :: "real list \<Rightarrow> real list \<Rightarrow> nat \<Rightarrow> real \<Rightarrow> real \<Rightarrow> real \<Rightarrow> real \<times> real \<times> real" where
  "cosine_loop a b i dotProduct normA normB =
     (if i < length a then
        cosine_loop a b (i + 1) (dotProduct + a ! i * b ! i) (normA + a ! i * a ! i) (normB + b ! i * b ! i)
      else (dotProduct, normA, normB))"
  by pat_completeness auto
termination
  by (relation "measure (\<lambda>(a, b, i, dotProduct, normA, normB). length a - i)") auto

definition cosineSimilarity :: "real list \<Rightarrow> real list \<Rightarrow> error + real" where
  "cosineSimilarity a b =
     (if length a \<noteq> length b then Inl VectorsLengthMismatch
      else
        (case cosine_loop a b 0 0 0 0 of (dotProduct, normA, normB) \<Rightarrow>
           let denominator = sqrt normA * sqrt normB
           in if denominator = 0 then Inr 0 else Inr (dotProduct / denominator)))"

text \<open>The formula of the specification: the dot product over the product of the Euclidean norms.\<close>

definition dot_product :: "real list \<Rightarrow> real list \<Rightarrow> real" where
  "dot_product a b = (\<Sum>i<length a. a ! i * b ! i)"

definition euclidean_norm :: "real list \<Rightarrow> real" where
  "euclidean_norm a = sqrt (\<Sum>i<length a. a ! i * a ! i)"

text \<open>\<open>results.sort((a, b) => b.score - a.score)\<close>: a stable sort by descending score.\<close>

definition sort_by_score_desc :: "VectorSearchResult list \<Rightarrow> VectorSearchResult list" where
  "sort_by_score_desc results = sort_key (\<lambda>r. - score r) results"

text \<open>The \<open>for\<close> loop of \<open>search\<close> (lines 91 to 96): a chunk whose embedding is missing or empty
  is skipped, and an exception of \<open>cosineSimilarity\<close> leaves the loop and the method.\<close>

fun search_loop :: "real list \<Rightarrow> DocumentChunk list \<Rightarrow> VectorSearchResult list \<Rightarrow> error + VectorSearchResult list" where
  "search_loop queryEmbedding [] results = Inr results"
| "search_loop queryEmbedding (c # cs) results =
     (case embedding c of
        None \<Rightarrow> search_loop queryEmbedding cs results
      | Some e \<Rightarrow>
          if length e = 0 then search_loop queryEmbedding cs results
          else
            (case cosineSimilarity queryEmbedding e of
               Inl err \<Rightarrow> Inl err
             | Inr s \<Rightarrow> search_loop queryEmbedding cs (results @ [\<lparr>chunk = c, score = s\<rparr>])))"

text \<open>\<open>search\<close> on a store that holds \<open>chunks\<close>; \<open>topK\<close> is a count (the callers pass 3, the
  default is 5), so that \<open>slice(0, topK)\<close> is the first \<open>topK\<close> entries.\<close>

definition search :: "DocumentChunk list \<Rightarrow> real list \<Rightarrow> nat \<Rightarrow> error + VectorSearchResult list" where
  "search chunks queryEmbedding topK =
     (if length chunks = 0 then Inr []
      else
        (case search_loop queryEmbedding chunks [] of
           Inl err \<Rightarrow> Inl err
         | Inr results \<Rightarrow> Inr (take topK (sort_by_score_desc results))))"

definition has_embedding :: "DocumentChunk \<Rightarrow> bool" where
  "has_embedding c = (case embedding c of None \<Rightarrow> False | Some e \<Rightarrow> length e \<noteq> 0)"


text \<open>A chunk with the given id and embedding, for the examples.\<close>

definition example_chunk :: "string \<Rightarrow> real list option \<Rightarrow> DocumentChunk" where
  "example_chunk name e = \<lparr>chunk_id = name, chunk_content = name, embedding = e, chunk_metadata = []\<rparr>"

section \<open>Messages, nodes and edges (services/storage/types.ts, src/src/types/canvas.ts)\<close>

datatype role = User | Assistant | System

record Message =
  role :: role
  content :: string
  timestamp :: nat

datatype node_kind = Chat | Memory

datatype edge_kind = Context | Rag

text \<open>The fields of \<open>ChatNodeData\<close> and \<open>MemoryNodeData\<close> that the engine reads; each is optional.\<close>

record node_data =
  title :: "string option"
  messages :: "Message list option"
  systemPrompt :: "string option"
  attachedMemoryNodes :: "string list option"

text \<open>A node and an edge of the live graph (React Flow's \<open>Node\<close> and \<open>Edge\<close>, whose \<open>type\<close> is
  optional).\<close>

record Node =
  node_id :: string
  node_type :: "node_kind option"
  node_position :: "real \<times> real"
  data :: node_data
  style_width :: "real option"
  style_height :: "real option"

record Edge =
  edge_id :: string
  source :: string
  target :: string
  edge_type :: "edge_kind option"

record Viewport =
  viewport_x :: real
  viewport_y :: real
  zoom :: real

text \<open>The persisted forms. \<open>CanvasNode.type\<close> is declared \<open>'chat' | 'memory'\<close>; the type of a
  stored edge may be missing in data written by earlier versions, which \<open>loadSession\<close> repairs.\<close>

record CanvasNode =
  cn_id :: string
  cn_type :: node_kind
  cn_position :: "real \<times> real"
  cn_size :: "real \<times> real"
  cn_data :: node_data

record CanvasEdge =
  ce_id :: string
  ce_source :: string
  ce_target :: string
  ce_type :: "edge_kind option"

record CanvasState =
  cs_nodes :: "CanvasNode list"
  cs_edges :: "CanvasEdge list"
  cs_viewport :: Viewport
  cs_version :: nat

record CanvasSessionData =
  session_id :: string
  session_title :: string
  session_state :: CanvasState
  createdAt :: nat
  updatedAt :: nat

record VectorStoreData =
  store_id :: string
  store_name :: string
  documents :: "DocumentChunk list"
  embeddingProvider :: "string option"
  embeddingModel :: "string option"
  store_createdAt :: nat

section \<open>Persistent store (src/src/services/storage/indexeddb-adapter.ts)\<close>

text \<open>Each object store is a list of key and value pairs; \<open>put\<close> replaces the value of a key
  that is present and adds the pair otherwise. The order in which \<open>getAll\<close> lists the values
  is the order of this list.\<close>

record Storage =
  canvasSessions :: "(string \<times> CanvasSessionData) list"
  vectorStores :: "(string \<times> VectorStoreData) list"

definition getCanvasSession :: "Storage \<Rightarrow> string \<Rightarrow> CanvasSessionData option" where
  "getCanvasSession storage sessionId = map_of (canvasSessions storage) sessionId"

definition saveCanvasSession :: "string \<Rightarrow> CanvasSessionData \<Rightarrow> Storage \<Rightarrow> Storage" where
  "saveCanvasSession sessionId session storage =
     storage\<lparr>canvasSessions := AList.update sessionId session (canvasSessions storage)\<rparr>"

definition getAllCanvasSessions :: "Storage \<Rightarrow> CanvasSessionData list" where
  "getAllCanvasSessions storage = map snd (canvasSessions storage)"

definition getVectorStore :: "Storage \<Rightarrow> string \<Rightarrow> VectorStoreData option" where
  "getVectorStore storage storeId = map_of (vectorStores storage) storeId"

section \<open>Canvas store (stores/canvasStore.ts, the second part of src/src/stores/settingsStore.ts)\<close>

record CanvasStoreState =
  nodes :: "Node list"
  edges :: "Edge list"
  viewport :: Viewport
  initialized :: bool
  currentSessionId :: "string option"
  sessions :: "CanvasSessionData list"
  isLoadingSession :: bool
  isCreatingSession :: bool

text \<open>\<open>x || d\<close> on a number: 0 and a missing value give the default.\<close>

definition number_or :: "real option \<Rightarrow> real \<Rightarrow> real" where
  "number_or x d = (case x of None \<Rightarrow> d | Some v \<Rightarrow> if v = 0 then d else v)"

text \<open>A session id is usable when it is neither null nor the empty string.\<close>

definition truthy :: "string option \<Rightarrow> bool" where
  "truthy x = (case x of None \<Rightarrow> False | Some v \<Rightarrow> v \<noteq> [])"

text \<open>Decimal digits of a number, as template strings print \<open>Date.now()\<close>.\<close>

function string_of_nat :: "nat \<Rightarrow> string" where
  "string_of_nat n =
     (if n < 10 then [''0123456789'' ! n]
      else string_of_nat (n div 10) @ [''0123456789'' ! (n mod 10)])"
  by pat_completeness auto
termination
  by (relation "measure (\<lambda>n. n)") auto

definition to_canvas_node :: "Node \<Rightarrow> CanvasNode" where
  "to_canvas_node node =
     \<lparr>cn_id = node_id node,
      cn_type = (case node_type node of None \<Rightarrow> Chat | Some k \<Rightarrow> k),
      cn_position = node_position node,
      cn_size = (number_or (style_width node) 400, number_or (style_height node) 500),
      cn_data = data node\<rparr>"

definition to_canvas_edge :: "Edge \<Rightarrow> CanvasEdge" where
  "to_canvas_edge edge =
     \<lparr>ce_id = edge_id edge, ce_source = source edge, ce_target = target edge,
      ce_type = Some (case edge_type edge of None \<Rightarrow> Context | Some k \<Rightarrow> k)\<rparr>"

text \<open>\<open>sessions.sort((a, b) => b.updatedAt - a.updatedAt)\<close>: most recently changed first.\<close>

definition sort_sessions :: "CanvasSessionData list \<Rightarrow> CanvasSessionData list" where
  "sort_sessions ss = sort_key (\<lambda>s. - int (updatedAt s)) ss"

text \<open>
  The actions of the store take the current time \<open>now\<close> (the value of \<open>Date.now()\<close>) and
  the pair of the store's state and the persistent store, and return the new pair. Calls run
  to completion in the order they are made; a failing storage operation is outside the model.
\<close>

definition saveCanvas :: "nat \<Rightarrow> CanvasStoreState \<times> Storage \<Rightarrow> CanvasStoreState \<times> Storage" where
  "saveCanvas now = (\<lambda>(st, storage).
     if isLoadingSession st then (st, storage)
     else
       let canvasState =
             \<lparr>cs_nodes = map to_canvas_node (nodes st), cs_edges = map to_canvas_edge (edges st),
              cs_viewport = viewport st, cs_version = 1\<rparr>
       in if length (nodes st) = 0 \<and> length (edges st) = 0 then (st, storage)
          else
            (case currentSessionId st of
               None \<Rightarrow> (st, storage)
             | Some sessionId \<Rightarrow>
                 if sessionId = [] then (st, storage)
                 else
                   let session =
                         (case find (\<lambda>s. session_id s = sessionId) (sessions st) of
                            Some s \<Rightarrow> Some s
                          | None \<Rightarrow> getCanvasSession storage sessionId);
                       updatedSession =
                         \<lparr>session_id = sessionId,
                          session_title =
                            (case session of
                               None \<Rightarrow> ''New Canvas''
                             | Some s \<Rightarrow> if session_title s = [] then ''New Canvas'' else session_title s),
                          session_state = canvasState,
                          createdAt =
                            (case session of
                               None \<Rightarrow> now
                             | Some s \<Rightarrow> if createdAt s = 0 then now else createdAt s),
                          updatedAt = now\<rparr>;
                       storage' = saveCanvasSession sessionId updatedSession storage
                   in (st\<lparr>sessions := sort_sessions (getAllCanvasSessions storage'),
                          currentSessionId := Some sessionId\<rparr>, storage')))"

definition createSession :: "nat \<Rightarrow> CanvasStoreState \<times> Storage \<Rightarrow> CanvasStoreState \<times> Storage" where
  "createSession now = (\<lambda>(st, storage).
     if truthy (currentSessionId st) then (st, storage)
     else if isCreatingSession st then (st, storage)
     else
       let sessionId = ''canvas-'' @ string_of_nat now;
           newSession =
             \<lparr>session_id = sessionId, session_title = ''New Canvas'',
              session_state =
                \<lparr>cs_nodes = map to_canvas_node (nodes st), cs_edges = map to_canvas_edge (edges st),
                 cs_viewport = viewport st, cs_version = 1\<rparr>,
              createdAt = now, updatedAt = now\<rparr>;
           storage' = saveCanvasSession sessionId newSession storage
       in (st\<lparr>currentSessionId := Some sessionId,
              sessions := sort_sessions (getAllCanvasSessions storage'),
              initialized := True, isCreatingSession := False\<rparr>, storage'))"

definition addNode :: "nat \<Rightarrow> Node \<Rightarrow> CanvasStoreState \<times> Storage \<Rightarrow> CanvasStoreState \<times> Storage" where
  "addNode now node = (\<lambda>(st, storage).
     let st1 = st\<lparr>nodes := nodes st @ [node]\<rparr>
     in if \<not> truthy (currentSessionId st1) then
          (case createSession now (st1, storage) of (st2, storage2) \<Rightarrow>
             if \<not> truthy (currentSessionId st2) then (st2, storage2)
             else saveCanvas now (st2, storage2))
        else saveCanvas now (st1, storage))"

text \<open>\<open>updateNode\<close> for the updates the engine makes, which carry only \<open>data\<close>: the fields
  that the update defines replace those of the node.\<close>

definition merge_data :: "node_data \<Rightarrow> node_data \<Rightarrow> node_data" where
  "merge_data old upd =
     \<lparr>title = (case title upd of None \<Rightarrow> title old | Some v \<Rightarrow> Some v),
      messages = (case messages upd of None \<Rightarrow> messages old | Some v \<Rightarrow> Some v),
      systemPrompt = (case systemPrompt upd of None \<Rightarrow> systemPrompt old | Some v \<Rightarrow> Some v),
      attachedMemoryNodes =
        (case attachedMemoryNodes upd of None \<Rightarrow> attachedMemoryNodes old | Some v \<Rightarrow> Some v)\<rparr>"

definition updateNode :: "nat \<Rightarrow> string \<Rightarrow> node_data \<Rightarrow> CanvasStoreState \<times> Storage \<Rightarrow> CanvasStoreState \<times> Storage" where
  "updateNode now nodeId upd = (\<lambda>(st, storage).
     saveCanvas now
       (st\<lparr>nodes := map (\<lambda>node. if node_id node = nodeId then node\<lparr>data := merge_data (data node) upd\<rparr> else node)
                      (nodes st)\<rparr>, storage))"

definition deleteNode :: "nat \<Rightarrow> string \<Rightarrow> CanvasStoreState \<times> Storage \<Rightarrow> CanvasStoreState \<times> Storage" where
  "deleteNode now nodeId = (\<lambda>(st, storage).
     saveCanvas now
       (st\<lparr>nodes := filter (\<lambda>node. node_id node \<noteq> nodeId) (nodes st),
            edges := filter (\<lambda>edge. source edge \<noteq> nodeId \<and> target edge \<noteq> nodeId) (edges st)\<rparr>, storage))"

definition setEdges :: "nat \<Rightarrow> Edge list \<Rightarrow> CanvasStoreState \<times> Storage \<Rightarrow> CanvasStoreState \<times> Storage" where
  "setEdges now es = (\<lambda>(st, storage). saveCanvas now (st\<lparr>edges := es\<rparr>, storage))"

text \<open>\<open>loadSession\<close>, lines 578 to 605: the type of a stored edge is repaired from the types of
  its stored end points, each looked up by id.\<close>

definition stored_type :: "CanvasNode list \<Rightarrow> string \<Rightarrow> node_kind option" where
  "stored_type canvasNodes nodeId = map_option cn_type (find (\<lambda>n. cn_id n = nodeId) canvasNodes)"

definition load_edge :: "CanvasNode list \<Rightarrow> CanvasEdge \<Rightarrow> Edge" where
  "load_edge canvasNodes edge =
     (if (ce_type edge = None \<or> ce_type edge = Some Context)
         \<and> stored_type canvasNodes (ce_source edge) = Some Memory
         \<and> stored_type canvasNodes (ce_target edge) = Some Chat
      then \<lparr>edge_id = ce_id edge, source = ce_source edge, target = ce_target edge,
            edge_type = Some Rag\<rparr>
      else \<lparr>edge_id = ce_id edge, source = ce_source edge, target = ce_target edge,
            edge_type = Some (case ce_type edge of None \<Rightarrow> Context | Some k \<Rightarrow> k)\<rparr>)"

definition load_node :: "CanvasNode \<Rightarrow> Node" where
  "load_node node =
     \<lparr>node_id = cn_id node, node_type = Some (cn_type node), node_position = cn_position node,
      data = cn_data node,
      style_width = Some (number_or (Some (fst (cn_size node))) 400),
      style_height = Some (number_or (Some (snd (cn_size node))) 500)\<rparr>"

text \<open>\<open>loadSession\<close> up to the point where it returns: the loading flag stays set when the
  session was found, and is cleared by a timer two seconds later, which is the separate
  step \<open>loading_timeout\<close>.\<close>

definition loadSession :: "string \<Rightarrow> CanvasStoreState \<times> Storage \<Rightarrow> CanvasStoreState \<times> Storage" where
  "loadSession sessionId = (\<lambda>(st, storage).
     let st1 = st\<lparr>isLoadingSession := True\<rparr>
     in (case getCanvasSession storage sessionId of
           None \<Rightarrow> (st1\<lparr>isLoadingSession := False\<rparr>, storage)
         | Some session \<Rightarrow>
             let canvasState = session_state session
             in (st1\<lparr>nodes := map load_node (cs_nodes canvasState),
                     edges := map (load_edge (cs_nodes canvasState)) (cs_edges canvasState),
                     viewport := cs_viewport canvasState,
                     currentSessionId := Some sessionId,
                     sessions := sort_sessions (getAllCanvasSessions storage)\<rparr>, storage)))"


section \<open>Drawing an edge (\<open>handleConnect\<close>, in src/unnamed/part_008)\<close>

definition edge_type_for :: "Node \<Rightarrow> Node \<Rightarrow> edge_kind" where
  "edge_type_for sourceNode targetNode =
     (if node_type sourceNode = Some Memory \<and> node_type targetNode = Some Chat then Rag else Context)"

definition handleConnect :: "nat \<Rightarrow> string option \<Rightarrow> string option \<Rightarrow> CanvasStoreState \<times> Storage \<Rightarrow> CanvasStoreState \<times> Storage" where
  "handleConnect now connection_source connection_target = (\<lambda>(st, storage).
     (case (connection_source, connection_target) of
        (Some src, Some tgt) \<Rightarrow>
          if src = [] \<or> tgt = [] then (st, storage)
          else
            (case (find (\<lambda>n. node_id n = src) (nodes st), find (\<lambda>n. node_id n = tgt) (nodes st)) of
               (Some sourceNode, Some targetNode) \<Rightarrow>
                 let edgeType = edge_type_for sourceNode targetNode;
                     newEdge =
                       \<lparr>edge_id = ''edge-'' @ src @ ''-'' @ tgt @ ''-'' @ string_of_nat now,
                        source = src, target = tgt, edge_type = Some edgeType\<rparr>;
                     updatedEdges = edges st @ [newEdge];
                     saved = setEdges now updatedEdges (st, storage)
                 in if edgeType = Rag then
                      let currentAttached =
                            (case attachedMemoryNodes (data targetNode) of None \<Rightarrow> [] | Some a \<Rightarrow> a)
                      in if src \<notin> set currentAttached then
                           updateNode now tgt
                             ((data targetNode)\<lparr>attachedMemoryNodes := Some (currentAttached @ [src])\<rparr>) saved
                         else saved
                    else saved
             | _ \<Rightarrow> (st, storage))
      | _ \<Rightarrow> (st, storage)))"


text \<open>The initial state of the store (lines 249 to 256), an empty persistent store, and
  nodes for the examples.\<close>

definition initial_state :: CanvasStoreState where
  "initial_state =
     \<lparr>nodes = [], edges = [], viewport = \<lparr>viewport_x = 0, viewport_y = 0, zoom = 1\<rparr>,
      initialized = False, currentSessionId = None, sessions = [],
      isLoadingSession = False, isCreatingSession = False\<rparr>"

definition empty_storage :: Storage where
  "empty_storage = \<lparr>canvasSessions = [], vectorStores = []\<rparr>"

definition empty_data :: node_data where
  "empty_data = \<lparr>title = None, messages = None, systemPrompt = None, attachedMemoryNodes = None\<rparr>"

definition example_node :: "string \<Rightarrow> node_kind \<Rightarrow> node_data \<Rightarrow> Node" where
  "example_node name kind d =
     \<lparr>node_id = name, node_type = Some kind, node_position = (0, 0), data = d,
      style_width = None, style_height = None\<rparr>"

text \<open>The canvas after a first chat node was added at time 1: the session \<open>canvas-1\<close> is
  created and saved.\<close>

definition one_node_canvas :: "CanvasStoreState \<times> Storage" where
  "one_node_canvas = addNode 1 (example_node ''n'' Chat empty_data) (initial_state, empty_storage)"

text \<open>A canvas with a memory node \<open>m\<close> and a chat node \<open>c\<close>, and a stored session over the
  same nodes whose edges carry every stored type, right or wrong, for the examples.\<close>

definition memory_and_chat :: CanvasStoreState where
  "memory_and_chat =
     initial_state\<lparr>nodes := [example_node ''m'' Memory empty_data, example_node ''c'' Chat empty_data]\<rparr>"

definition stored_edge :: "string \<Rightarrow> string \<Rightarrow> edge_kind option \<Rightarrow> CanvasEdge" where
  "stored_edge src tgt kind = \<lparr>ce_id = src @ ''-'' @ tgt, ce_source = src, ce_target = tgt, ce_type = kind\<rparr>"

definition legacy_storage :: Storage where
  "legacy_storage =
     \<lparr>canvasSessions =
        [(''s'',
          \<lparr>session_id = ''s'', session_title = ''Old'',
           session_state =
             \<lparr>cs_nodes = map to_canvas_node (nodes memory_and_chat),
              cs_edges =
                [stored_edge ''m'' ''c'' None, stored_edge ''m'' ''c'' (Some Context),
                 stored_edge ''c'' ''m'' None, stored_edge ''c'' ''c'' (Some Context),
                 stored_edge ''m'' ''c'' (Some Rag), stored_edge ''c'' ''m'' (Some Rag)],
              cs_viewport = \<lparr>viewport_x = 0, viewport_y = 0, zoom = 1\<rparr>, cs_version = 1\<rparr>,
           createdAt = 1, updatedAt = 1\<rparr>)],
      vectorStores = []\<rparr>"

section \<open>Sending from a chat node (components/canvas/nodes/ChatNode.tsx, in src/unnamed/part_007)\<close>

subsection \<open>Context from donor nodes\<close>

record Donor =
  nodeId :: string
  nodeTitle :: string
  donor_messages :: "Message list"

record LLMMessage =
  llm_role :: role
  llm_content :: string

text \<open>What is recorded of a donor (lines 106 to 124): its id, its title or \<open>Untitled\<close>, and
  its messages.\<close>

definition donor_of :: "Node \<Rightarrow> Donor" where
  "donor_of donorNode =
     \<lparr>nodeId = node_id donorNode,
      nodeTitle =
        (case title (data donorNode) of
           None \<Rightarrow> ''Untitled''
         | Some t \<Rightarrow> if t = [] then ''Untitled'' else t),
      donor_messages = (case messages (data donorNode) of None \<Rightarrow> [] | Some ms \<Rightarrow> ms)\<rparr>"

text \<open>The \<open>for\<close> loop of \<open>getContextFromDonorNodes\<close> (lines 74 to 125): an edge whose source
  is not found, or is not a chat node, is skipped.\<close>

fun donor_loop :: "Node list \<Rightarrow> Edge list \<Rightarrow> Donor list \<Rightarrow> Donor list" where
  "donor_loop currentNodes [] donorNodes = donorNodes"
| "donor_loop currentNodes (edge # rest) donorNodes =
     (case find (\<lambda>n. node_id n = source edge) currentNodes of
        None \<Rightarrow> donor_loop currentNodes rest donorNodes
      | Some donorNode \<Rightarrow>
          if node_type donorNode \<noteq> Some Chat then donor_loop currentNodes rest donorNodes
          else donor_loop currentNodes rest (donorNodes @ [donor_of donorNode]))"

definition getContextFromDonorNodes :: "string \<Rightarrow> Node list \<Rightarrow> Edge list \<Rightarrow> Donor list" where
  "getContextFromDonorNodes receiverId currentNodes currentEdges =
     (let allIncomingEdges = filter (\<lambda>e. target e = receiverId) currentEdges;
          incomingEdges = filter (\<lambda>e. edge_type e = Some Context) allIncomingEdges
      in donor_loop currentNodes incomingEdges [])"

text \<open>The messages sent to the provider (lines 811 to 880). \<open>ragContext\<close> is the block that the
  retrieval step produced, empty when there is none.\<close>

definition donor_header :: "string \<Rightarrow> LLMMessage" where
  "donor_header donorTitle =
     \<lparr>llm_role = System,
      llm_content = ''Context from '' @ [CHR 0x22] @ donorTitle @ [CHR 0x22] @ '' (donor node):''\<rparr>"

definition donor_separator :: LLMMessage where
  "donor_separator = \<lparr>llm_role = System, llm_content = ''---''\<rparr>"

definition end_of_donor_context :: LLMMessage where
  "end_of_donor_context =
     \<lparr>llm_role = System,
      llm_content = ''--- End of donor context. Continue the conversation below. ---''\<rparr>"

definition forwarded :: "Message list \<Rightarrow> LLMMessage list" where
  "forwarded ms =
     map (\<lambda>msg. \<lparr>llm_role = role msg, llm_content = content msg\<rparr>)
       (filter (\<lambda>msg. role msg = User \<or> role msg = Assistant) ms)"

definition donor_block :: "nat \<Rightarrow> nat \<times> Donor \<Rightarrow> LLMMessage list" where
  "donor_block donorCount = (\<lambda>(index, donor).
     donor_header (nodeTitle donor) # forwarded (donor_messages donor)
       @ (if int index < int donorCount - 1 then [donor_separator] else []))"

definition rag_system_message :: "string \<Rightarrow> LLMMessage" where
  "rag_system_message ragContext =
     \<lparr>llm_role = System,
      llm_content = ''The following context is retrieved from attached memory nodes:'' @ ragContext
        @ [CHR 0x0A, CHR 0x0A] @ ''Use this context to inform your response.''\<rparr>"

definition build_llm_messages :: "string \<Rightarrow> Donor list \<Rightarrow> string \<Rightarrow> Message list \<Rightarrow> LLMMessage list" where
  "build_llm_messages systemPromptText donorNodes ragContext updatedMessages =
     (if systemPromptText \<noteq> [] then [\<lparr>llm_role = System, llm_content = systemPromptText\<rparr>] else [])
     @ (if length donorNodes > 0 then
          concat (map (donor_block (length donorNodes)) (enumerate 0 donorNodes)) @ [end_of_donor_context]
        else [])
     @ (if ragContext \<noteq> [] then [rag_system_message ragContext] else [])
     @ map (\<lambda>m. \<lparr>llm_role = role m, llm_content = content m\<rparr>) updatedMessages"

text \<open>For the examples: a receiver \<open>r\<close> with the donors \<open>d1\<close>, titled A, whose messages are a
  system message, \<open>u1\<close> and \<open>a1\<close>, and \<open>d2\<close>, titled B, whose only message is \<open>u2\<close>. The node
  \<open>d2\<close> comes first in the node list; the edge from \<open>d1\<close> comes first in the edge list.\<close>

definition example_message :: "role \<Rightarrow> string \<Rightarrow> Message" where
  "example_message r c = \<lparr>role = r, content = c, timestamp = 0\<rparr>"

definition donor_example_nodes :: "Node list" where
  "donor_example_nodes =
     [example_node ''d2'' Chat (empty_data\<lparr>title := Some ''B'', messages := Some [example_message User ''u2'']\<rparr>),
      example_node ''r'' Chat empty_data,
      example_node ''d1'' Chat
        (empty_data\<lparr>title := Some ''A'',
           messages := Some [example_message System ''s0'', example_message User ''u1'',
                             example_message Assistant ''a1'']\<rparr>)]"

definition donor_example_edges :: "Edge list" where
  "donor_example_edges =
     [\<lparr>edge_id = ''e1'', source = ''d1'', target = ''r'', edge_type = Some Context\<rparr>,
      \<lparr>edge_id = ''e2'', source = ''d2'', target = ''r'', edge_type = Some Context\<rparr>]"

subsection \<open>Retrieval from the attached memory nodes\<close>

record RagResult =
  rag_content :: string
  rag_score :: real
  rag_source :: string
  rag_metadata :: "(string \<times> string) list"

text \<open>One pass of the loop over the attached memory nodes (lines 689 to 764): a node without
  a stored index adds nothing, and neither does one whose search throws, the exception being
  caught and logged.\<close>

definition query_memory_node :: "Storage \<Rightarrow> real list \<Rightarrow> string \<Rightarrow> RagResult list" where
  "query_memory_node storage queryEmbedding memoryNodeId =
     (case getVectorStore storage memoryNodeId of
        None \<Rightarrow> []
      | Some storeData \<Rightarrow>
          (case search (documents storeData) queryEmbedding 3 of
             Inl err \<Rightarrow> []
           | Inr results \<Rightarrow>
               map (\<lambda>result.
                      \<lparr>rag_content = chunk_content (chunk result), rag_score = score result,
                       rag_source = (if store_name storeData \<noteq> [] then store_name storeData else memoryNodeId),
                       rag_metadata = chunk_metadata (chunk result)\<rparr>) results))"

fun query_all :: "Storage \<Rightarrow> real list \<Rightarrow> string list \<Rightarrow> RagResult list \<Rightarrow> RagResult list" where
  "query_all storage queryEmbedding [] allResults = allResults"
| "query_all storage queryEmbedding (memoryNodeId # rest) allResults =
     query_all storage queryEmbedding rest
       (allResults @ query_memory_node storage queryEmbedding memoryNodeId)"

text \<open>Lines 767 and 768: \<open>allResults.sort((a, b) => b.score - a.score)\<close> and \<open>slice(0, 5)\<close>.\<close>

definition top_results :: "RagResult list \<Rightarrow> RagResult list" where
  "top_results allResults = take 5 (sort_key (\<lambda>r. - rag_score r) allResults)"

text \<open>The retrieval step of \<open>handleSend\<close>. \<open>queryEmbedding\<close> is what the embedding provider
  returned for the query, \<open>None\<close> when there is no provider or the request failed.\<close>

definition rag_query :: "Storage \<Rightarrow> string list \<Rightarrow> string \<Rightarrow> real list option \<Rightarrow> RagResult list" where
  "rag_query storage attached query queryEmbedding =
     (if length attached > 0 \<and> trim query \<noteq> [] then
        (case queryEmbedding of
           None \<Rightarrow> []
         | Some q \<Rightarrow> top_results (query_all storage q attached []))
      else [])"

fun join :: "string \<Rightarrow> string list \<Rightarrow> string" where
  "join sep [] = []"
| "join sep [x] = x"
| "join sep (x # y # ys) = x @ sep @ join sep (y # ys)"

definition rag_context :: "RagResult list \<Rightarrow> string" where
  "rag_context topResults =
     (if length topResults > 0 then
        [CHR 0x0A, CHR 0x0A] @ ''Relevant context from memory:'' @ [CHR 0x0A]
        @ join [CHR 0x0A, CHR 0x0A]
            (map (\<lambda>(i, r). ''['' @ string_of_nat (i + 1) @ ''] (from '' @ [CHR 0x22] @ rag_source r
                    @ [CHR 0x22] @ ''): '' @ rag_content r)
               (enumerate 0 topResults))
      else [])"

text \<open>For the examples: two stored indices whose chunks have the cosine similarities 0.9, 0.4,
  0.2 and 0.8, 0.3 to the query embedding \<open>[1, 0, 0, 0]\<close> (every embedding has norm 10).\<close>

definition example_store :: "string \<Rightarrow> DocumentChunk list \<Rightarrow> VectorStoreData" where
  "example_store name chunks =
     \<lparr>store_id = name, store_name = name, documents = chunks, embeddingProvider = None,
      embeddingModel = None, store_createdAt = 0\<rparr>"

definition rag_example_storage :: Storage where
  "rag_example_storage =
     \<lparr>canvasSessions = [],
      vectorStores =
        [(''m1'', example_store ''m1''
            [example_chunk ''a'' (Some [9, 3, 3, 1]), example_chunk ''b'' (Some [4, 8, 4, 2]),
             example_chunk ''c'' (Some [2, 8, 4, 4])]),
         (''m2'', example_store ''m2''
            [example_chunk ''d'' (Some [8, 6, 0, 0]), example_chunk ''e'' (Some [3, 9, 3, 1])])]\<rparr>"

subsection \<open>Streaming the answer\<close>

record LLMStreamChunk =
  delta :: string
  final :: bool

text \<open>The body of the \<open>for await\<close> loop in \<open>handleSend\<close> (lines 893 to 906). The state is the
  local \<open>fullContent\<close> and the node's message list; each chunk arrives with the time at
  which it is received.\<close>

definition receive_chunk :: "Message list \<Rightarrow> string \<times> Message list \<Rightarrow> nat \<times> LLMStreamChunk \<Rightarrow> string \<times> Message list" where
  "receive_chunk updatedMessages = (\<lambda>(fullContent, shown) (now, c).
     if delta c \<noteq> [] then
       (fullContent @ delta c,
        updatedMessages @ [\<lparr>role = Assistant, content = fullContent @ delta c, timestamp = now\<rparr>])
     else (fullContent, shown))"

fun stream_chat_node :: "Message list \<Rightarrow> (nat \<times> LLMStreamChunk) list \<Rightarrow> string \<times> Message list \<Rightarrow> string \<times> Message list" where
  "stream_chat_node updatedMessages [] state = state"
| "stream_chat_node updatedMessages (c # rest) state =
     (let state' = receive_chunk updatedMessages state c
      in if final (snd c) then state' else stream_chat_node updatedMessages rest state')"

section \<open>Chat store (stores/chatStore.ts, in src/unnamed/part_009) and chat mode (src/src/components/chat/ChatMode.tsx)\<close>

record ChatData =
  chat_id :: string
  chat_title :: string
  chat_messages :: "Message list"
  chat_createdAt :: nat
  chat_updatedAt :: nat

definition updateLastMessage :: "nat \<Rightarrow> string \<Rightarrow> ChatData option \<Rightarrow> ChatData option" where
  "updateLastMessage now newContent currentChat =
     (case currentChat of
        None \<Rightarrow> None
      | Some chat \<Rightarrow>
          let msgs = chat_messages chat;
              msgs' =
                (if length msgs > 0 \<and> role (msgs ! (length msgs - 1)) = Assistant then
                   msgs[length msgs - 1 := (msgs ! (length msgs - 1))\<lparr>content := newContent\<rparr>]
                 else msgs @ [\<lparr>role = Assistant, content = newContent, timestamp = now\<rparr>])
          in Some (chat\<lparr>chat_messages := msgs', chat_updatedAt := now\<rparr>))"

text \<open>The streaming loop of chat mode (lines 164 to 173): the state is the local
  \<open>fullContent\<close> and the store's \<open>currentChat\<close>.\<close>

definition receive_chunk_chat :: "string \<times> ChatData option \<Rightarrow> nat \<times> LLMStreamChunk \<Rightarrow> string \<times> ChatData option" where
  "receive_chunk_chat = (\<lambda>(fullContent, currentChat) (now, c).
     if delta c \<noteq> [] then
       (fullContent @ delta c, updateLastMessage now (fullContent @ delta c) currentChat)
     else (fullContent, currentChat))"

fun stream_chat_mode :: "(nat \<times> LLMStreamChunk) list \<Rightarrow> string \<times> ChatData option \<Rightarrow> string \<times> ChatData option" where
  "stream_chat_mode [] state = state"
| "stream_chat_mode (c # rest) state =
     (let state' = receive_chunk_chat state c
      in if final (snd c) then state' else stream_chat_mode rest state')"


text \<open>The concatenation of the deltas of a sequence of chunks, and, for the examples, a stream
  of the deltas \<open>He\<close> and \<open>llo\<close> followed by the final chunk, and a chat that holds one user
  message.\<close>

definition accumulated :: "(nat \<times> LLMStreamChunk) list \<Rightarrow> string" where
  "accumulated chunks = concat (map (\<lambda>c. delta (snd c)) chunks)"

definition example_stream :: "(nat \<times> LLMStreamChunk) list" where
  "example_stream =
     [(1, \<lparr>delta = ''He'', final = False\<rparr>), (2, \<lparr>delta = ''llo'', final = False\<rparr>),
      (3, \<lparr>delta = [], final = True\<rparr>)]"

definition example_chat :: ChatData where
  "example_chat =
     \<lparr>chat_id = ''chat-0'', chat_title = ''New Chat'', chat_messages = [example_message User ''hi''],
      chat_createdAt = 0, chat_updatedAt = 0\<rparr>"

section \<open>Properties of the chunking\<close>

declare chunk_loop.simps [simp del]

lemma chunk_loop_step:
  assumes "start < int (length t)" "length chunks < 10000" "iterations < 20000"
  shows "chunk_loop t chunkSize overlap start chunks iterations =
     (let chunks' = push_chunk chunks (trim (slice t start (window_end t chunkSize start)));
          start' = next_start t chunkSize overlap start
      in if start' \<ge> int (length t) then chunks'
         else chunk_loop t chunkSize overlap start' chunks' (iterations + 1))"
  using assms by (subst chunk_loop.simps) (simp add: MAX_CHUNKS_def Let_def)

lemma length_push_chunk: "length (push_chunk chunks c) \<le> Suc (length chunks)"
  by (simp add: push_chunk_def)

text \<open>With the default parameters a text of 2400 characters is cut into four windows: the
  loop goes on from the window that reaches the end of the text to one more, which starts
  \<open>overlap\<close> characters before the end.\<close>

lemma chunk_windows_2400:
  assumes len: "length t = 2400"
  shows "chunkText t 1000 200 =
     push_chunk (push_chunk (push_chunk (push_chunk []
       (trim (slice t 0 1000))) (trim (slice t 800 1800)))
       (trim (slice t 1600 2400))) (trim (slice t 2200 2400))"
proof -
  have w4: "chunk_loop t 1000 200 2200 chunks it
      = push_chunk chunks (trim (slice t 2200 2400))"
    if "length chunks \<le> 3" "it \<le> 3" for chunks it
    using that by (subst chunk_loop_step) (simp_all add: len window_end_def next_start_def Let_def)
  have w3: "chunk_loop t 1000 200 1600 chunks it
      = push_chunk (push_chunk chunks (trim (slice t 1600 2400))) (trim (slice t 2200 2400))"
    if "length chunks \<le> 2" "it \<le> 2" for chunks it
  proof -
    have "length (push_chunk chunks (trim (slice t 1600 2400))) \<le> 3"
      using that(1) length_push_chunk [of chunks "trim (slice t 1600 2400)"] by linarith
    then show ?thesis
      using that by (subst chunk_loop_step) (simp_all add: len window_end_def next_start_def Let_def w4)
  qed
  have w2: "chunk_loop t 1000 200 800 chunks it
      = push_chunk (push_chunk (push_chunk chunks (trim (slice t 800 1800)))
          (trim (slice t 1600 2400))) (trim (slice t 2200 2400))"
    if "length chunks \<le> 1" "it \<le> 1" for chunks it
  proof -
    have "length (push_chunk chunks (trim (slice t 800 1800))) \<le> 2"
      using that(1) length_push_chunk [of chunks "trim (slice t 800 1800)"] by linarith
    then show ?thesis
      using that by (subst chunk_loop_step) (simp_all add: len window_end_def next_start_def Let_def w3)
  qed
  have w1: "chunk_loop t 1000 200 0 [] 0
      = push_chunk (push_chunk (push_chunk (push_chunk [] (trim (slice t 0 1000)))
          (trim (slice t 800 1800))) (trim (slice t 1600 2400))) (trim (slice t 2200 2400))"
  proof -
    have "length (push_chunk [] (trim (slice t 0 1000))) \<le> 1"
      using length_push_chunk [of "[]" "trim (slice t 0 1000)"] by simp
    then show ?thesis
      by (subst chunk_loop_step) (simp_all add: len window_end_def next_start_def Let_def w2)
  qed
  show ?thesis
    unfolding chunkText_def by (simp add: w1 valid_chunkSize_def valid_overlap_def)
qed

lemma dropWhile_none: "\<forall>x \<in> set xs. \<not> P x \<Longrightarrow> dropWhile P xs = xs"
  by (cases xs) auto

lemma trim_no_whitespace: "\<forall>c \<in> set s. \<not> is_whitespace c \<Longrightarrow> trim s = s"
  by (simp add: trim_def dropWhile_none)

lemma set_slice_subset: "set (slice xs a b) \<subseteq> set xs"
proof -
  have "set (take n (drop m xs)) \<subseteq> set xs" for n m
    using set_take_subset [of n "drop m xs"] set_drop_subset [of m xs] by blast
  then show ?thesis by (simp add: slice_def Let_def)
qed

lemma length_slice:
  "0 \<le> a \<Longrightarrow> a \<le> b \<Longrightarrow> b \<le> int (length xs) \<Longrightarrow> length (slice xs a b) = nat (b - a)"
  by (simp add: slice_def Let_def)

lemma chunk_windows_2400_plain:
  assumes len: "length t = 2400" and ws: "\<forall>c \<in> set t. \<not> is_whitespace c"
  shows "chunkText t 1000 200 = [slice t 0 1000, slice t 800 1800, slice t 1600 2400, slice t 2200 2400]"
proof -
  have tr: "trim (slice t a b) = slice t a b" for a b
    using ws set_slice_subset [of t a b] by (intro trim_no_whitespace) blast
  have ne: "slice t 0 1000 \<noteq> []" "slice t 800 1800 \<noteq> []" "slice t 1600 2400 \<noteq> []"
    "slice t 2200 2400 \<noteq> []"
    using length_slice [of 0 1000 t] length_slice [of 800 1800 t] length_slice [of 1600 2400 t]
      length_slice [of 2200 2400 t] len by auto
  show ?thesis
    by (simp add: chunk_windows_2400 [OF len] tr push_chunk_def ne)
qed








lemma slice_replicate:
  "0 \<le> a \<Longrightarrow> a \<le> b \<Longrightarrow> b \<le> int n \<Longrightarrow> slice (replicate n x) a b = replicate (nat (b - a)) x"
  by (simp add: slice_def Let_def min_def) arith

lemma not_whitespace_a: "\<not> is_whitespace (CHR ''a'')"
  by (simp add: is_whitespace_def)

text \<open>
  C1, as amended. For a text of exactly 2400 characters and the default parameters
  (chunk size 1000, overlap 200), \<open>chunkText\<close> cuts the four windows that start at the
  offsets 0, 800, 1600 and 2200 (ending at 1000, 1800, 2400 and 2400), trims each and keeps
  those that are not empty. For a text without white space it therefore returns exactly
  four chunks, of 1000, 1000, 800 and 200 characters: the second starts at offset 800, the
  third at offset 1600, and the fourth repeats the last 200 characters of the third.
\<close>

theorem chunkText_2400_characters:
  assumes "length t = 2400"
  shows "chunkText t 1000 200 =
           filter (\<lambda>c. c \<noteq> [])
             (map trim [slice t 0 1000, slice t 800 1800, slice t 1600 2400, slice t 2200 2400])
         \<and> ((\<forall>c \<in> set t. \<not> is_whitespace c) \<longrightarrow>
              chunkText t 1000 200 =
                [slice t 0 1000, slice t 800 1800, slice t 1600 2400, slice t 2200 2400]
              \<and> map length (chunkText t 1000 200) = [1000, 1000, 800, 200])"
proof (intro conjI impI)
  show "chunkText t 1000 200 =
      filter (\<lambda>c. c \<noteq> [])
        (map trim [slice t 0 1000, slice t 800 1800, slice t 1600 2400, slice t 2200 2400])"
    by (simp add: chunk_windows_2400 [OF assms] push_chunk_def)
next
  assume ws: "\<forall>c \<in> set t. \<not> is_whitespace c"
  show plain: "chunkText t 1000 200 =
      [slice t 0 1000, slice t 800 1800, slice t 1600 2400, slice t 2200 2400]"
    by (rule chunk_windows_2400_plain [OF assms ws])
  show "map length (chunkText t 1000 200) = [1000, 1000, 800, 200]"
    using assms by (simp add: plain length_slice)
qed

theorem chunkText_2400_characters_witness:
  "length (replicate 2400 (CHR ''a'')) = 2400
   \<and> \<not> is_whitespace (CHR ''a'')
   \<and> chunkText (replicate 2400 (CHR ''a'')) 1000 200 =
       [replicate 1000 (CHR ''a''), replicate 1000 (CHR ''a''), replicate 800 (CHR ''a''),
        replicate 200 (CHR ''a'')]"
proof -
  have len: "length (replicate 2400 (CHR ''a'')) = 2400" by simp
  have ws: "\<forall>c \<in> set (replicate 2400 (CHR ''a'')). \<not> is_whitespace c"
    by (simp add: not_whitespace_a)
  from chunkText_2400_characters [OF len] ws
  have "chunkText (replicate 2400 (CHR ''a'')) 1000 200 =
      [slice (replicate 2400 (CHR ''a'')) 0 1000, slice (replicate 2400 (CHR ''a'')) 800 1800,
       slice (replicate 2400 (CHR ''a'')) 1600 2400, slice (replicate 2400 (CHR ''a'')) 2200 2400]"
    by blast
  then have "chunkText (replicate 2400 (CHR ''a'')) 1000 200 =
       [replicate 1000 (CHR ''a''), replicate 1000 (CHR ''a''), replicate 800 (CHR ''a''),
        replicate 200 (CHR ''a'')]"
    by (simp add: slice_replicate)
  with len not_whitespace_a show ?thesis by blast
qed

theorem chunkText_2400_counterexample:
  "length (replicate 2400 (CHR ''a'')) = 2400
   \<and> length (chunkText (replicate 2400 (CHR ''a'')) 1000 200) = 4
   \<and> length (chunkText (replicate 2400 (CHR ''a'')) 1000 200) \<noteq> 3"
proof -
  have len: "length (replicate 2400 (CHR ''a'')) = 2400" by simp
  have ws: "\<forall>c \<in> set (replicate 2400 (CHR ''a'')). \<not> is_whitespace c"
    by (simp add: not_whitespace_a)
  show ?thesis
    by (simp add: chunk_windows_2400_plain [OF len ws])
qed






section \<open>Properties of the vector store\<close>

declare cosine_loop.simps [simp del]

lemma cosine_loop_sums:
  "i \<le> length a \<Longrightarrow> cosine_loop a b i d na nb =
     (d + (\<Sum>k = i..<length a. a ! k * b ! k),
      na + (\<Sum>k = i..<length a. a ! k * a ! k),
      nb + (\<Sum>k = i..<length a. b ! k * b ! k))"
proof (induction a b i d na nb rule: cosine_loop.induct)
  case (1 a b i d na nb)
  show ?case
  proof (cases "i < length a")
    case True
    then show ?thesis
      using "1.IH" by (subst cosine_loop.simps) (simp add: sum.atLeast_Suc_lessThan add.assoc)
  next
    case False
    then show ?thesis
      using "1.prems" by (subst cosine_loop.simps) simp
  qed
qed

lemma cosineSimilarity_eq:
  assumes "length a = length b"
  shows "cosineSimilarity a b =
     (if euclidean_norm a * euclidean_norm b = 0 then Inr 0
      else Inr (dot_product a b / (euclidean_norm a * euclidean_norm b)))"
  using assms
  by (simp add: cosineSimilarity_def cosine_loop_sums dot_product_def euclidean_norm_def
      lessThan_atLeast0 Let_def)

lemma sqrt_25: "sqrt 25 = 5"
  by (rule real_sqrt_unique) simp_all

lemma cosine_3_4: "cosineSimilarity [4, 3] [3, 4] = Inr (24 / 25)"
  by (simp add: cosineSimilarity_eq euclidean_norm_def dot_product_def lessThan_Suc
      numeral_2_eq_2 sqrt_25)

lemma cosine_4_3: "cosineSimilarity [4, 3] [4, 3] = Inr 1"
  by (simp add: cosineSimilarity_eq euclidean_norm_def dot_product_def lessThan_Suc
      numeral_2_eq_2 sqrt_25)

lemma cosine_0_5: "cosineSimilarity [4, 3] [0, 5] = Inr (3 / 5)"
  by (simp add: cosineSimilarity_eq euclidean_norm_def dot_product_def lessThan_Suc
      numeral_2_eq_2 sqrt_25)

text \<open>
  C5. When the lengths differ \<open>cosineSimilarity\<close> throws; when they agree and one of the norms
  is 0 it returns 0; otherwise it returns the dot product over the product of the norms.
\<close>

theorem cosineSimilarity_spec:
  "(length a \<noteq> length b \<longrightarrow> cosineSimilarity a b = Inl VectorsLengthMismatch) \<and>
   (length a = length b \<longrightarrow>
      (euclidean_norm a = 0 \<or> euclidean_norm b = 0 \<longrightarrow> cosineSimilarity a b = Inr 0) \<and>
      (euclidean_norm a \<noteq> 0 \<and> euclidean_norm b \<noteq> 0 \<longrightarrow>
         cosineSimilarity a b = Inr (dot_product a b / (euclidean_norm a * euclidean_norm b))))"
proof (intro conjI impI)
  assume "length a \<noteq> length b"
  then show "cosineSimilarity a b = Inl VectorsLengthMismatch"
    by (simp add: cosineSimilarity_def)
next
  assume "length a = length b" "euclidean_norm a = 0 \<or> euclidean_norm b = 0"
  then show "cosineSimilarity a b = Inr 0"
    by (auto simp: cosineSimilarity_eq)
next
  assume "length a = length b" "euclidean_norm a \<noteq> 0 \<and> euclidean_norm b \<noteq> 0"
  then show "cosineSimilarity a b = Inr (dot_product a b / (euclidean_norm a * euclidean_norm b))"
    by (simp add: cosineSimilarity_eq)
qed

theorem cosineSimilarity_spec_witness:
  "cosineSimilarity [1] [4, 3] = Inl VectorsLengthMismatch
   \<and> euclidean_norm [0, 0] = 0 \<and> cosineSimilarity [0, 0] [4, 3] = Inr 0
   \<and> euclidean_norm [3, 4] = 5 \<and> euclidean_norm [4, 3] = 5 \<and> dot_product [3, 4] [4, 3] = 24
   \<and> cosineSimilarity [3, 4] [4, 3] = Inr (24 / 25)"
proof -
  have n0: "euclidean_norm [0, 0] = 0"
    by (simp add: euclidean_norm_def lessThan_Suc numeral_2_eq_2)
  have n1: "euclidean_norm [3, 4] = 5"
    by (simp add: euclidean_norm_def lessThan_Suc numeral_2_eq_2 sqrt_25)
  have n2: "euclidean_norm [4, 3] = 5"
    by (simp add: euclidean_norm_def lessThan_Suc numeral_2_eq_2 sqrt_25)
  have d: "dot_product [3, 4] [4, 3] = 24"
    by (simp add: dot_product_def lessThan_Suc numeral_2_eq_2)
  have e1: "cosineSimilarity [1] [4, 3] = Inl VectorsLengthMismatch"
    using cosineSimilarity_spec [of "[1]" "[4, 3]"] by simp
  have e2: "cosineSimilarity [0, 0] [4, 3] = Inr 0"
    using cosineSimilarity_spec [of "[0, 0]" "[4, 3]"] n0 by simp
  have e3: "cosineSimilarity [3, 4] [4, 3] = Inr (24 / 25)"
    using cosineSimilarity_spec [of "[3, 4]" "[4, 3]"] n1 n2 d by simp
  from e1 n0 e2 n1 n2 d e3 show ?thesis by blast
qed

lemma search_loop_Inr:
  "search_loop q cs acc = Inr rs \<Longrightarrow>
     (\<exists>new. rs = acc @ new \<and> map chunk new = filter has_embedding cs \<and>
        (\<forall>r \<in> set new. \<exists>e. embedding (chunk r) = Some e \<and> cosineSimilarity q e = Inr (score r)))"
proof (induction cs arbitrary: acc)
  case Nil
  then show ?case by simp
next
  case (Cons c cs)
  show ?case
  proof (cases "has_embedding c")
    case False
    then have "search_loop q (c # cs) acc = search_loop q cs acc"
      by (auto simp: has_embedding_def split: option.splits)
    with Cons.prems Cons.IH [of acc] False show ?thesis by auto
  next
    case True
    then obtain e where e: "embedding c = Some e" "length e \<noteq> 0"
      by (auto simp: has_embedding_def split: option.splits)
    with Cons.prems obtain s where s: "cosineSimilarity q e = Inr s"
      and rec: "search_loop q cs (acc @ [\<lparr>chunk = c, score = s\<rparr>]) = Inr rs"
      by (auto split: sum.splits)
    from Cons.IH [OF rec] obtain new where new: "rs = (acc @ [\<lparr>chunk = c, score = s\<rparr>]) @ new"
      "map chunk new = filter has_embedding cs"
      "\<forall>r \<in> set new. \<exists>e. embedding (chunk r) = Some e \<and> cosineSimilarity q e = Inr (score r)"
      by blast
    show ?thesis
    proof (intro exI conjI)
      show "rs = acc @ (\<lparr>chunk = c, score = s\<rparr> # new)" using new(1) by simp
      show "map chunk (\<lparr>chunk = c, score = s\<rparr> # new) = filter has_embedding (c # cs)"
        using new(2) True by simp
      show "\<forall>r \<in> set (\<lparr>chunk = c, score = s\<rparr> # new).
          \<exists>e. embedding (chunk r) = Some e \<and> cosineSimilarity q e = Inr (score r)"
        using new(3) e s by simp
    qed
  qed
qed

lemma cosineSimilarity_total:
  "length a = length b \<Longrightarrow> \<exists>s. cosineSimilarity a b = Inr s"
  by (simp add: cosineSimilarity_def Let_def split: prod.splits)

lemma search_loop_total:
  "\<forall>c \<in> set cs. \<forall>e. embedding c = Some e \<longrightarrow> length e \<noteq> 0 \<longrightarrow> length e = length q \<Longrightarrow>
     \<exists>rs. search_loop q cs acc = Inr rs"
proof (induction cs arbitrary: acc)
  case Nil
  then show ?case by simp
next
  case (Cons c cs)
  then have IH: "\<exists>rs. search_loop q cs acc' = Inr rs" for acc' by simp
  show ?case
  proof (cases "embedding c")
    case None
    then show ?thesis using IH [of acc] by simp
  next
    case (Some e)
    show ?thesis
    proof (cases "length e = 0")
      case True
      then show ?thesis using Some IH [of acc] by simp
    next
      case False
      with Cons.prems Some have "length q = length e" by simp
      from cosineSimilarity_total [OF this] obtain s where "cosineSimilarity q e = Inr s" ..
      then show ?thesis using Some False IH [of "acc @ [\<lparr>chunk = c, score = s\<rparr>]"] by simp
    qed
  qed
qed

lemma search_loop_no_embedding:
  "filter has_embedding cs = [] \<Longrightarrow> search_loop q cs acc = Inr acc"
  by (induction cs arbitrary: acc) (auto simp: has_embedding_def split: option.splits if_splits)

lemma sorted_desc_sort: "sorted_wrt (\<ge>) (map score (sort_by_score_desc rs))"
proof -
  have "sorted (map (\<lambda>r. - score r) (sort_by_score_desc rs))"
    by (simp add: sort_by_score_desc_def)
  then show ?thesis
    by (simp add: sorted_wrt_map)
qed

text \<open>
  C3. \<open>search\<close> skips the chunks whose embedding is missing or empty. When no chunk has
  an embedding (in particular when the store is empty) the result is the empty sequence.
  Whenever \<open>search\<close> returns, which it does when every embedding it compares has the length
  of the query (otherwise \<open>cosineSimilarity\<close> throws, see C5), it returns at most
  \<open>min n topK\<close> results, \<open>n\<close> being the number of chunks with a non-empty embedding; their
  scores are non-increasing, and each is the cosine similarity of the query and the
  embedding of its chunk.
\<close>

theorem search_topK:
  "(filter has_embedding chunks = [] \<longrightarrow> search chunks q topK = Inr []) \<and>
   ((\<forall>c \<in> set chunks. \<forall>e. embedding c = Some e \<longrightarrow> length e \<noteq> 0 \<longrightarrow> length e = length q)
      \<longrightarrow> (\<exists>rs. search chunks q topK = Inr rs)) \<and>
   (\<forall>rs. search chunks q topK = Inr rs \<longrightarrow>
      length rs \<le> min (length (filter has_embedding chunks)) topK \<and>
      sorted_wrt (\<ge>) (map score rs) \<and>
      (\<forall>r \<in> set rs. chunk r \<in> set chunks \<and> has_embedding (chunk r) \<and>
         (\<exists>e. embedding (chunk r) = Some e \<and> cosineSimilarity q e = Inr (score r))))"
proof (intro conjI impI allI)
  assume "filter has_embedding chunks = []"
  then show "search chunks q topK = Inr []"
    by (simp add: search_def search_loop_no_embedding sort_by_score_desc_def)
next
  assume "\<forall>c \<in> set chunks. \<forall>e. embedding c = Some e \<longrightarrow> length e \<noteq> 0 \<longrightarrow> length e = length q"
  from search_loop_total [OF this, of "[]"] show "\<exists>rs. search chunks q topK = Inr rs"
    by (auto simp: search_def)
next
  fix rs assume ok: "search chunks q topK = Inr rs"
  have "\<exists>all. search_loop q chunks [] = Inr all \<and> rs = take topK (sort_by_score_desc all)"
  proof (cases "chunks = []")
    case True
    with ok show ?thesis by (simp add: search_def sort_by_score_desc_def)
  next
    case False
    with ok show ?thesis by (auto simp: search_def split: sum.splits)
  qed
  then obtain all where all: "search_loop q chunks [] = Inr all"
    and rs: "rs = take topK (sort_by_score_desc all)" by blast
  from search_loop_Inr [OF all] have chunks_all: "map chunk all = filter has_embedding chunks"
    and scores: "\<forall>r \<in> set all. \<exists>e. embedding (chunk r) = Some e \<and> cosineSimilarity q e = Inr (score r)"
    by auto
  have len: "length all = length (filter has_embedding chunks)"
    using chunks_all by (metis length_map)
  show "length rs \<le> min (length (filter has_embedding chunks)) topK"
    by (simp add: rs len sort_by_score_desc_def)
  show "sorted_wrt (\<ge>) (map score rs)"
    unfolding rs take_map [symmetric] by (rule sorted_wrt_take) (rule sorted_desc_sort)
  have sub: "set rs \<subseteq> set all"
    unfolding rs sort_by_score_desc_def using set_take_subset [of topK "sort_key (\<lambda>r. - score r) all"]
    by simp
  show "\<forall>r \<in> set rs. chunk r \<in> set chunks \<and> has_embedding (chunk r) \<and>
         (\<exists>e. embedding (chunk r) = Some e \<and> cosineSimilarity q e = Inr (score r))"
  proof
    fix r assume "r \<in> set rs"
    then have r: "r \<in> set all" using sub by blast
    then have "chunk r \<in> set (map chunk all)" by simp
    then have "chunk r \<in> set (filter has_embedding chunks)" by (simp only: chunks_all)
    with scores r show "chunk r \<in> set chunks \<and> has_embedding (chunk r) \<and>
         (\<exists>e. embedding (chunk r) = Some e \<and> cosineSimilarity q e = Inr (score r))"
      by simp
  qed
qed


lemma search_example:
  "search [example_chunk ''a'' (Some [3, 4]), example_chunk ''b'' None, example_chunk ''c'' (Some []),
           example_chunk ''d'' (Some [4, 3]), example_chunk ''e'' (Some [0, 5])] [4, 3] 2
   = Inr [\<lparr>chunk = example_chunk ''d'' (Some [4, 3]), score = 1\<rparr>,
          \<lparr>chunk = example_chunk ''a'' (Some [3, 4]), score = 24 / 25\<rparr>]"
  by (simp add: search_def sort_by_score_desc_def example_chunk_def cosine_3_4 cosine_4_3 cosine_0_5)

theorem search_topK_witness:
  "search [example_chunk ''a'' (Some [3, 4]), example_chunk ''b'' None, example_chunk ''c'' (Some []),
           example_chunk ''d'' (Some [4, 3]), example_chunk ''e'' (Some [0, 5])] [4, 3] 2
     = Inr [\<lparr>chunk = example_chunk ''d'' (Some [4, 3]), score = 1\<rparr>,
            \<lparr>chunk = example_chunk ''a'' (Some [3, 4]), score = 24 / 25\<rparr>]
   \<and> length (filter has_embedding
         [example_chunk ''a'' (Some [3, 4]), example_chunk ''b'' None, example_chunk ''c'' (Some []),
          example_chunk ''d'' (Some [4, 3]), example_chunk ''e'' (Some [0, 5])]) = 3
   \<and> length [\<lparr>chunk = example_chunk ''d'' (Some [4, 3]), score = 1\<rparr>,
              \<lparr>chunk = example_chunk ''a'' (Some [3, 4]), score = 24 / 25::real\<rparr>] \<le> min 3 2
   \<and> sorted_wrt (\<ge>) [1, 24 / 25 :: real]
   \<and> filter has_embedding [example_chunk ''b'' None, example_chunk ''c'' (Some [])] = []
   \<and> search [example_chunk ''b'' None, example_chunk ''c'' (Some [])] [4, 3] 2 = Inr []
   \<and> search [] [4, 3] 2 = Inr []"
proof -
  let ?store = "[example_chunk ''a'' (Some [3, 4]), example_chunk ''b'' None, example_chunk ''c'' (Some []),
           example_chunk ''d'' (Some [4, 3]), example_chunk ''e'' (Some [0, 5])]"
  let ?rs = "[\<lparr>chunk = example_chunk ''d'' (Some [4, 3]), score = 1\<rparr>,
            \<lparr>chunk = example_chunk ''a'' (Some [3, 4]), score = 24 / 25::real\<rparr>]"
  have n: "length (filter has_embedding ?store) = 3"
    by (simp add: has_embedding_def example_chunk_def)
  from search_topK [of ?store "[4, 3]" 2] search_example
  have "length ?rs \<le> min (length (filter has_embedding ?store)) 2 \<and> sorted_wrt (\<ge>) (map score ?rs)"
    by blast
  then have a: "length ?rs \<le> min 3 2" and b: "sorted_wrt (\<ge>) [1, 24 / 25 :: real]"
    using n by simp_all
  have none: "filter has_embedding [example_chunk ''b'' None, example_chunk ''c'' (Some [])] = []"
    by (simp add: has_embedding_def example_chunk_def)
  with search_topK [of "[example_chunk ''b'' None, example_chunk ''c'' (Some [])]" "[4, 3]" 2]
  have c: "search [example_chunk ''b'' None, example_chunk ''c'' (Some [])] [4, 3] 2 = Inr []"
    by blast
  from search_topK [of "[]" "[4, 3]" 2] have d: "search [] [4, 3] 2 = Inr []"
    by simp
  from search_example n a b none c d show ?thesis by blast
qed


section \<open>Properties of the canvas store\<close>

declare string_of_nat.simps [simp del]

lemma saveCanvas_loading: "isLoadingSession st \<Longrightarrow> saveCanvas now (st, storage) = (st, storage)"
  by (simp add: saveCanvas_def)

lemma saveCanvas_empty:
  "nodes st = [] \<Longrightarrow> edges st = [] \<Longrightarrow> saveCanvas now (st, storage) = (st, storage)"
  by (simp add: saveCanvas_def Let_def)

lemma saveCanvas_graph:
  "nodes (fst (saveCanvas now (st, storage))) = nodes st \<and>
   edges (fst (saveCanvas now (st, storage))) = edges st \<and>
   isLoadingSession (fst (saveCanvas now (st, storage))) = isLoadingSession st"
  by (simp add: saveCanvas_def Let_def split: option.splits)

lemma fold_saveCanvas_loading:
  "isLoadingSession (fst x) \<Longrightarrow> fold saveCanvas nows x = x"
proof (induction nows)
  case Nil
  then show ?case by simp
next
  case (Cons now nows)
  obtain st storage where x: "x = (st, storage)" by (cases x)
  with Cons show ?case by (simp add: saveCanvas_loading)
qed

lemma loadSession_storage: "snd (loadSession sessionId (st, storage)) = storage"
  by (simp add: loadSession_def Let_def split: option.splits)

lemma loadSession_loading:
  "getCanvasSession storage sessionId = Some session \<Longrightarrow>
     isLoadingSession (fst (loadSession sessionId (st, storage)))"
  by (simp add: loadSession_def Let_def)

text \<open>
  The loading guard. While \<open>isLoadingSession\<close> is set, \<open>saveCanvas\<close> writes nothing and changes
  no state. \<open>loadSession\<close> itself writes nothing; when it finds the session it leaves the flag
  set, so that any number of saves made before the flag is cleared leaves the stored
  session, and with it its \<open>updatedAt\<close>, as it was.
\<close>

lemma saveCanvas_guard_while_loading:
  "(isLoadingSession st \<longrightarrow> saveCanvas now (st, storage) = (st, storage))
   \<and> snd (loadSession sessionId (st, storage)) = storage
   \<and> (getCanvasSession storage sessionId = Some session \<longrightarrow>
        isLoadingSession (fst (loadSession sessionId (st, storage)))
        \<and> fold saveCanvas nows (loadSession sessionId (st, storage)) = loadSession sessionId (st, storage)
        \<and> getCanvasSession (snd (fold saveCanvas nows (loadSession sessionId (st, storage)))) sessionId
            = Some session)"
proof (intro conjI impI)
  assume "isLoadingSession st"
  then show "saveCanvas now (st, storage) = (st, storage)" by (rule saveCanvas_loading)
next
  show "snd (loadSession sessionId (st, storage)) = storage" by (rule loadSession_storage)
next
  assume found: "getCanvasSession storage sessionId = Some session"
  show l: "isLoadingSession (fst (loadSession sessionId (st, storage)))"
    by (rule loadSession_loading [OF found])
  show f: "fold saveCanvas nows (loadSession sessionId (st, storage)) = loadSession sessionId (st, storage)"
    by (rule fold_saveCanvas_loading [OF l])
  show "getCanvasSession (snd (fold saveCanvas nows (loadSession sessionId (st, storage)))) sessionId
      = Some session"
    by (simp add: f loadSession_storage found)
qed

lemma deleteNode_storage:
  assumes "nodes (fst (deleteNode now nid (st, storage))) = []"
    and "edges (fst (deleteNode now nid (st, storage))) = []"
  shows "deleteNode now nid (st, storage) =
     (st\<lparr>nodes := [], edges := []\<rparr>, storage)"
proof -
  let ?st' = "st\<lparr>nodes := filter (\<lambda>node. node_id node \<noteq> nid) (nodes st),
            edges := filter (\<lambda>edge. source edge \<noteq> nid \<and> target edge \<noteq> nid) (edges st)\<rparr>"
  have d: "deleteNode now nid (st, storage) = saveCanvas now (?st', storage)"
    by (simp add: deleteNode_def)
  from assms have "nodes ?st' = []" "edges ?st' = []"
    using saveCanvas_graph [of now ?st' storage] by (simp_all add: d)
  then show ?thesis
    by (simp add: d saveCanvas_empty)
qed


text \<open>
  C9. When the node list and the edge list are both empty, \<open>saveCanvas\<close> writes nothing. So a
  \<open>deleteNode\<close> that leaves the canvas empty is not persisted: the persistent store is what
  it was before the deletion, and every stored session record is unchanged.
\<close>

theorem empty_canvas_not_saved:
  "(nodes st = [] \<and> edges st = [] \<longrightarrow> saveCanvas now (st, storage) = (st, storage))
   \<and> (nodes (fst (deleteNode now nid (st, storage))) = []
        \<and> edges (fst (deleteNode now nid (st, storage))) = [] \<longrightarrow>
        snd (deleteNode now nid (st, storage)) = storage
        \<and> getCanvasSession (snd (deleteNode now nid (st, storage))) sessionId
            = getCanvasSession storage sessionId)"
proof (intro conjI impI)
  assume "nodes st = [] \<and> edges st = []"
  then show "saveCanvas now (st, storage) = (st, storage)"
    by (simp add: saveCanvas_empty)
next
  assume e: "nodes (fst (deleteNode now nid (st, storage))) = []
        \<and> edges (fst (deleteNode now nid (st, storage))) = []"
  then show s: "snd (deleteNode now nid (st, storage)) = storage"
    using deleteNode_storage [of now nid st storage] by simp
  show "getCanvasSession (snd (deleteNode now nid (st, storage))) sessionId
            = getCanvasSession storage sessionId"
    by (simp add: s)
qed

lemma string_of_nat_1: "string_of_nat 1 = ''1''" "string_of_nat (Suc 0) = ''1''"
  by (simp_all add: string_of_nat.simps)

lemma one_node_canvas_eq:
  "one_node_canvas =
     (\<lparr>nodes = [example_node ''n'' Chat empty_data], edges = [],
       viewport = \<lparr>viewport_x = 0, viewport_y = 0, zoom = 1\<rparr>,
       initialized = True, currentSessionId = Some ''canvas-1'',
       sessions =
         [\<lparr>session_id = ''canvas-1'', session_title = ''New Canvas'',
           session_state =
             \<lparr>cs_nodes = [to_canvas_node (example_node ''n'' Chat empty_data)], cs_edges = [],
              cs_viewport = \<lparr>viewport_x = 0, viewport_y = 0, zoom = 1\<rparr>, cs_version = 1\<rparr>,
           createdAt = 1, updatedAt = 1\<rparr>],
       isLoadingSession = False, isCreatingSession = False\<rparr>,
      \<lparr>canvasSessions =
         [(''canvas-1'',
           \<lparr>session_id = ''canvas-1'', session_title = ''New Canvas'',
            session_state =
              \<lparr>cs_nodes = [to_canvas_node (example_node ''n'' Chat empty_data)], cs_edges = [],
               cs_viewport = \<lparr>viewport_x = 0, viewport_y = 0, zoom = 1\<rparr>, cs_version = 1\<rparr>,
            createdAt = 1, updatedAt = 1\<rparr>)],
       vectorStores = []\<rparr>)"
  by (simp add: one_node_canvas_def addNode_def createSession_def saveCanvas_def string_of_nat_1
      initial_state_def empty_storage_def truthy_def Let_def saveCanvasSession_def
      getAllCanvasSessions_def getCanvasSession_def sort_sessions_def example_node_def)

theorem empty_canvas_not_saved_witness:
  "map (\<lambda>s. map cn_id (cs_nodes (session_state s))) (getAllCanvasSessions (snd one_node_canvas)) = [[''n'']]
   \<and> nodes (fst (deleteNode 2 ''n'' one_node_canvas)) = []
   \<and> edges (fst (deleteNode 2 ''n'' one_node_canvas)) = []
   \<and> snd (deleteNode 2 ''n'' one_node_canvas) = snd one_node_canvas
   \<and> map (\<lambda>s. map cn_id (cs_nodes (session_state s)))
        (getAllCanvasSessions (snd (deleteNode 2 ''n'' one_node_canvas))) = [[''n'']]
   \<and> saveCanvas 3 (deleteNode 2 ''n'' one_node_canvas) = deleteNode 2 ''n'' one_node_canvas"
proof -
  let ?st = "fst one_node_canvas" and ?storage = "snd one_node_canvas"
  let ?deleted = "deleteNode 2 ''n'' (?st, ?storage)"
  have c: "(?st, ?storage) = one_node_canvas" by simp
  have before: "map (\<lambda>s. map cn_id (cs_nodes (session_state s))) (getAllCanvasSessions ?storage) = [[''n'']]"
    by (simp add: one_node_canvas_eq getAllCanvasSessions_def to_canvas_node_def example_node_def)
  have graph: "nodes (fst ?deleted) = [] \<and> edges (fst ?deleted) = []"
    using saveCanvas_graph
    by (simp add: one_node_canvas_eq deleteNode_def example_node_def)
  with empty_canvas_not_saved [where st = ?st and storage = ?storage and now = 2 and nid = "''n''"]
  have kept: "snd ?deleted = ?storage" by blast
  from graph empty_canvas_not_saved [where st = "fst ?deleted" and now = 3 and storage = "snd ?deleted"]
  have again: "saveCanvas 3 ?deleted = ?deleted" by simp
  from before graph kept again show ?thesis
    unfolding c by simp
qed


section \<open>Properties of the edge types\<close>

lemma setEdges_graph:
  "nodes (fst (setEdges now es (st, storage))) = nodes st \<and>
   edges (fst (setEdges now es (st, storage))) = es"
  using saveCanvas_graph [of now "st\<lparr>edges := es\<rparr>" storage] by (simp add: setEdges_def)

lemma updateNode_edges:
  "edges (fst (updateNode now nid upd (st, storage))) = edges st"
  using saveCanvas_graph by (simp add: updateNode_def)

lemma updateNode_edges':
  "edges (fst (updateNode now nid upd x)) = edges (fst x)"
  by (cases x) (simp add: updateNode_edges)

lemma handleConnect_edges:
  assumes "find (\<lambda>n. node_id n = src) (nodes st) = Some sourceNode"
    and "find (\<lambda>n. node_id n = tgt) (nodes st) = Some targetNode"
    and "src \<noteq> []" "tgt \<noteq> []"
  shows "edges (fst (handleConnect now (Some src) (Some tgt) (st, storage))) =
     edges st @ [\<lparr>edge_id = ''edge-'' @ src @ ''-'' @ tgt @ ''-'' @ string_of_nat now,
                  source = src, target = tgt,
                  edge_type = Some (edge_type_for sourceNode targetNode)\<rparr>]"
  using assms
  by (simp add: handleConnect_def Let_def setEdges_graph updateNode_edges')

lemma loadSession_edges:
  assumes "getCanvasSession storage sessionId = Some session"
  shows "edges (fst (loadSession sessionId (st, storage))) =
     map (load_edge (cs_nodes (session_state session))) (cs_edges (session_state session))"
  using assms by (simp add: loadSession_def Let_def)

text \<open>
  C6. An edge drawn between two nodes of the canvas is appended with the type \<open>rag\<close> exactly
  when the source is a memory node and the target a chat node, and with the type \<open>context\<close>
  otherwise. On loading a session the edges are the stored ones with their types repaired:
  a stored edge whose type is missing or \<open>context\<close> and whose stored end points are a memory
  node and a chat node becomes \<open>rag\<close>; every other edge keeps its stored type, a missing one
  being read as \<open>context\<close>. Id, source and target are never changed.
\<close>

theorem edge_kind_inference:
  "(find (\<lambda>n. node_id n = src) (nodes st) = Some sourceNode
      \<and> find (\<lambda>n. node_id n = tgt) (nodes st) = Some targetNode \<and> src \<noteq> [] \<and> tgt \<noteq> [] \<longrightarrow>
      (\<exists>e. edges (fst (handleConnect now (Some src) (Some tgt) (st, storage))) = edges st @ [e]
           \<and> source e = src \<and> target e = tgt
           \<and> (edge_type e = Some Rag \<longleftrightarrow>
                 node_type sourceNode = Some Memory \<and> node_type targetNode = Some Chat)
           \<and> (edge_type e = Some Context \<longleftrightarrow>
                 \<not> (node_type sourceNode = Some Memory \<and> node_type targetNode = Some Chat))))
   \<and> (getCanvasSession storage sessionId = Some session \<longrightarrow>
        edges (fst (loadSession sessionId (st, storage))) =
          map (load_edge (cs_nodes (session_state session))) (cs_edges (session_state session)))
   \<and> edge_id (load_edge canvasNodes edge) = ce_id edge
   \<and> source (load_edge canvasNodes edge) = ce_source edge
   \<and> target (load_edge canvasNodes edge) = ce_target edge
   \<and> ((ce_type edge = None \<or> ce_type edge = Some Context)
         \<and> stored_type canvasNodes (ce_source edge) = Some Memory
         \<and> stored_type canvasNodes (ce_target edge) = Some Chat \<longrightarrow>
        edge_type (load_edge canvasNodes edge) = Some Rag)
   \<and> (\<not> ((ce_type edge = None \<or> ce_type edge = Some Context)
            \<and> stored_type canvasNodes (ce_source edge) = Some Memory
            \<and> stored_type canvasNodes (ce_target edge) = Some Chat) \<longrightarrow>
        edge_type (load_edge canvasNodes edge)
          = Some (case ce_type edge of None \<Rightarrow> Context | Some k \<Rightarrow> k))"
proof (intro conjI impI)
  assume a: "find (\<lambda>n. node_id n = src) (nodes st) = Some sourceNode
      \<and> find (\<lambda>n. node_id n = tgt) (nodes st) = Some targetNode \<and> src \<noteq> [] \<and> tgt \<noteq> []"
  let ?e = "\<lparr>edge_id = ''edge-'' @ src @ ''-'' @ tgt @ ''-'' @ string_of_nat now,
                  source = src, target = tgt,
                  edge_type = Some (edge_type_for sourceNode targetNode)\<rparr>"
  from a have "edges (fst (handleConnect now (Some src) (Some tgt) (st, storage))) = edges st @ [?e]"
    by (intro handleConnect_edges) simp_all
  moreover have "source ?e = src \<and> target ?e = tgt
           \<and> (edge_type ?e = Some Rag \<longleftrightarrow>
                 node_type sourceNode = Some Memory \<and> node_type targetNode = Some Chat)
           \<and> (edge_type ?e = Some Context \<longleftrightarrow>
                 \<not> (node_type sourceNode = Some Memory \<and> node_type targetNode = Some Chat))"
    by (simp add: edge_type_for_def)
  ultimately show "\<exists>e. edges (fst (handleConnect now (Some src) (Some tgt) (st, storage))) = edges st @ [e]
           \<and> source e = src \<and> target e = tgt
           \<and> (edge_type e = Some Rag \<longleftrightarrow>
                 node_type sourceNode = Some Memory \<and> node_type targetNode = Some Chat)
           \<and> (edge_type e = Some Context \<longleftrightarrow>
                 \<not> (node_type sourceNode = Some Memory \<and> node_type targetNode = Some Chat))"
    by blast
next
  assume "getCanvasSession storage sessionId = Some session"
  then show "edges (fst (loadSession sessionId (st, storage))) =
          map (load_edge (cs_nodes (session_state session))) (cs_edges (session_state session))"
    by (rule loadSession_edges)
qed (auto simp: load_edge_def)


theorem edge_kind_inference_witness:
  "map edge_type (edges (fst (handleConnect 7 (Some ''m'') (Some ''c'') (memory_and_chat, empty_storage))))
     = [Some Rag]
   \<and> map edge_type (edges (fst (handleConnect 7 (Some ''c'') (Some ''m'') (memory_and_chat, empty_storage))))
     = [Some Context]
   \<and> map edge_type (edges (fst (handleConnect 7 (Some ''c'') (Some ''c'') (memory_and_chat, empty_storage))))
     = [Some Context]
   \<and> map edge_type (edges (fst (loadSession ''s'' (initial_state, legacy_storage))))
     = [Some Rag, Some Rag, Some Context, Some Context, Some Rag, Some Rag]"
proof -
  let ?m = "example_node ''m'' Memory empty_data" and ?c = "example_node ''c'' Chat empty_data"
  have fm: "find (\<lambda>n. node_id n = ''m'') (nodes memory_and_chat) = Some ?m"
    and fc: "find (\<lambda>n. node_id n = ''c'') (nodes memory_and_chat) = Some ?c"
    by (simp_all add: memory_and_chat_def initial_state_def example_node_def)
  have no_edges: "edges memory_and_chat = []"
    by (simp add: memory_and_chat_def initial_state_def)
  have tm: "node_type ?m = Some Memory" and tc: "node_type ?c = Some Chat"
    by (simp_all add: example_node_def)
  from edge_kind_inference [where st = memory_and_chat and src = "''m''" and tgt = "''c''"
      and sourceNode = ?m and targetNode = ?c and now = 7 and storage = empty_storage, THEN conjunct1] fm fc tm tc
  obtain e1 where "edges (fst (handleConnect 7 (Some ''m'') (Some ''c'') (memory_and_chat, empty_storage)))
      = edges memory_and_chat @ [e1]" "edge_type e1 = Some Rag"
    by auto
  then have a: "map edge_type (edges (fst (handleConnect 7 (Some ''m'') (Some ''c'')
      (memory_and_chat, empty_storage)))) = [Some Rag]"
    by (simp add: no_edges)
  from edge_kind_inference [where st = memory_and_chat and src = "''c''" and tgt = "''m''"
      and sourceNode = ?c and targetNode = ?m and now = 7 and storage = empty_storage, THEN conjunct1] fm fc tm tc
  obtain e2 where "edges (fst (handleConnect 7 (Some ''c'') (Some ''m'') (memory_and_chat, empty_storage)))
      = edges memory_and_chat @ [e2]" "edge_type e2 = Some Context"
    by auto
  then have b: "map edge_type (edges (fst (handleConnect 7 (Some ''c'') (Some ''m'')
      (memory_and_chat, empty_storage)))) = [Some Context]"
    by (simp add: no_edges)
  from edge_kind_inference [where st = memory_and_chat and src = "''c''" and tgt = "''c''"
      and sourceNode = ?c and targetNode = ?c and now = 7 and storage = empty_storage, THEN conjunct1] fc tc
  obtain e3 where "edges (fst (handleConnect 7 (Some ''c'') (Some ''c'') (memory_and_chat, empty_storage)))
      = edges memory_and_chat @ [e3]" "edge_type e3 = Some Context"
    by auto
  then have c: "map edge_type (edges (fst (handleConnect 7 (Some ''c'') (Some ''c'')
      (memory_and_chat, empty_storage)))) = [Some Context]"
    by (simp add: no_edges)
  have found: "getCanvasSession legacy_storage ''s'' = Some (snd (hd (canvasSessions legacy_storage)))"
    by (simp add: getCanvasSession_def legacy_storage_def)
  from edge_kind_inference [where storage = legacy_storage and sessionId = "''s''"
      and session = "snd (hd (canvasSessions legacy_storage))" and st = initial_state,
      THEN conjunct2, THEN conjunct1] found
  have "edges (fst (loadSession ''s'' (initial_state, legacy_storage))) =
      map (load_edge (cs_nodes (session_state (snd (hd (canvasSessions legacy_storage))))))
        (cs_edges (session_state (snd (hd (canvasSessions legacy_storage)))))"
    by blast
  then have d: "map edge_type (edges (fst (loadSession ''s'' (initial_state, legacy_storage))))
     = [Some Rag, Some Rag, Some Context, Some Context, Some Rag, Some Rag]"
    by (simp add: legacy_storage_def memory_and_chat_def initial_state_def example_node_def
        to_canvas_node_def stored_edge_def load_edge_def stored_type_def)
  from a b c d show ?thesis by blast
qed


section \<open>Properties of the context propagation\<close>

lemma find_Some_mem: "find P xs = Some x \<Longrightarrow> P x \<and> x \<in> set xs"
  by (induction xs) (auto split: if_splits)

lemma find_None_mem: "find P xs = None \<Longrightarrow> x \<in> set xs \<Longrightarrow> \<not> P x"
  by (induction xs) (auto split: if_splits)

lemma find_by_key_perm:
  assumes d: "distinct (map f xs)" and m: "mset ys = mset xs"
  shows "find (\<lambda>x. f x = k) ys = find (\<lambda>x. f x = k) xs"
proof -
  have s: "set ys = set xs" using m by (rule mset_eq_setD)
  have inj: "inj_on f (set xs)" using d by (simp add: distinct_map)
  show ?thesis
  proof (cases "find (\<lambda>x. f x = k) xs")
    case None
    then have "\<forall>x \<in> set ys. f x \<noteq> k" using find_None_mem s by fastforce
    then have "find (\<lambda>x. f x = k) ys = None" by (simp add: find_None_iff)
    with None show ?thesis by simp
  next
    case (Some x)
    then have x: "f x = k" "x \<in> set xs" using find_Some_mem by fastforce+
    then have "\<exists>y \<in> set ys. f y = k" using s by blast
    then obtain y where y: "find (\<lambda>x. f x = k) ys = Some y"
      by (cases "find (\<lambda>x. f x = k) ys") (auto simp: find_None_iff)
    then have "f y = k" "y \<in> set xs" using find_Some_mem s by fastforce+
    with x inj have "y = x" by (auto dest: inj_onD)
    with y Some show ?thesis by simp
  qed
qed

lemma donor_loop_lookup:
  assumes "\<And>k. find (\<lambda>n. node_id n = k) ns' = find (\<lambda>n. node_id n = k) ns"
  shows "donor_loop ns' es acc = donor_loop ns es acc"
  by (induction es arbitrary: acc) (simp_all add: assms split: option.splits)

lemma donors_node_order:
  assumes "distinct (map node_id ns)" "mset ns' = mset ns"
  shows "getContextFromDonorNodes r ns' es = getContextFromDonorNodes r ns es"
  unfolding getContextFromDonorNodes_def Let_def
  by (rule donor_loop_lookup) (rule find_by_key_perm [OF assms])

lemma two_donors:
  assumes "filter (\<lambda>e. edge_type e = Some Context) (filter (\<lambda>e. target e = r) es) = [e1, e2]"
    and "find (\<lambda>n. node_id n = source e1) ns = Some d1" "node_type d1 = Some Chat"
    and "find (\<lambda>n. node_id n = source e2) ns = Some d2" "node_type d2 = Some Chat"
  shows "getContextFromDonorNodes r ns es = [donor_of d1, donor_of d2]"
  using assms by (simp add: getContextFromDonorNodes_def Let_def)

lemma build_two_donors:
  "build_llm_messages sp [x, y] rag own =
     (if sp \<noteq> [] then [\<lparr>llm_role = System, llm_content = sp\<rparr>] else [])
     @ donor_header (nodeTitle x) # forwarded (donor_messages x)
     @ donor_separator # donor_header (nodeTitle y) # forwarded (donor_messages y)
     @ end_of_donor_context
     # (if rag \<noteq> [] then [rag_system_message rag] else [])
     @ map (\<lambda>m. \<lparr>llm_role = role m, llm_content = content m\<rparr>) own"
  by (simp add: build_llm_messages_def donor_block_def enumerate_eq_zip upt_rec)

text \<open>
  C7. Let the context edges into the receiver be \<open>e1\<close> and \<open>e2\<close>, in the order of the edge
  list, with chat nodes \<open>d1\<close> and \<open>d2\<close> as their sources; let \<open>title1\<close>, \<open>title2\<close> be their titles
  (\<open>Untitled\<close> for a missing or empty one) and \<open>ms1\<close>, \<open>ms2\<close> their messages. The messages
  sent are then: the system prompt if there is one; the system message
  \<open>Context from "title1" (donor node):\<close>; the user and assistant messages of \<open>ms1\<close> in their
  order; the system message \<open>---\<close>; the system message \<open>Context from "title2" (donor node):\<close>;
  the user and assistant messages of \<open>ms2\<close>; the system message
  \<open>--- End of donor context. Continue the conversation below. ---\<close>; the retrieved context
  if there is any; and the receiver's own messages. No system message of a donor is
  forwarded. The donors depend on the node list only through the lookup by id, so any
  reordering of the nodes gives the same donors: their order is the order of the edges.
\<close>

theorem donor_context_transcript:
  assumes "filter (\<lambda>e. edge_type e = Some Context) (filter (\<lambda>e. target e = r) es) = [e1, e2]"
    and "find (\<lambda>n. node_id n = source e1) ns = Some d1" "node_type d1 = Some Chat"
    and "find (\<lambda>n. node_id n = source e2) ns = Some d2" "node_type d2 = Some Chat"
    and "title1 = (case title (data d1) of None \<Rightarrow> ''Untitled'' | Some t \<Rightarrow> if t = [] then ''Untitled'' else t)"
    and "title2 = (case title (data d2) of None \<Rightarrow> ''Untitled'' | Some t \<Rightarrow> if t = [] then ''Untitled'' else t)"
    and "ms1 = (case messages (data d1) of None \<Rightarrow> [] | Some ms \<Rightarrow> ms)"
    and "ms2 = (case messages (data d2) of None \<Rightarrow> [] | Some ms \<Rightarrow> ms)"
  shows "build_llm_messages sp (getContextFromDonorNodes r ns es) rag own =
       (if sp \<noteq> [] then [\<lparr>llm_role = System, llm_content = sp\<rparr>] else [])
       @ [\<lparr>llm_role = System,
           llm_content = ''Context from '' @ [CHR 0x22] @ title1 @ [CHR 0x22] @ '' (donor node):''\<rparr>]
       @ map (\<lambda>m. \<lparr>llm_role = role m, llm_content = content m\<rparr>)
           (filter (\<lambda>m. role m = User \<or> role m = Assistant) ms1)
       @ [\<lparr>llm_role = System, llm_content = ''---''\<rparr>]
       @ [\<lparr>llm_role = System,
           llm_content = ''Context from '' @ [CHR 0x22] @ title2 @ [CHR 0x22] @ '' (donor node):''\<rparr>]
       @ map (\<lambda>m. \<lparr>llm_role = role m, llm_content = content m\<rparr>)
           (filter (\<lambda>m. role m = User \<or> role m = Assistant) ms2)
       @ [\<lparr>llm_role = System,
           llm_content = ''--- End of donor context. Continue the conversation below. ---''\<rparr>]
       @ (if rag \<noteq> [] then
            [\<lparr>llm_role = System,
              llm_content = ''The following context is retrieved from attached memory nodes:'' @ rag
                @ [CHR 0x0A, CHR 0x0A] @ ''Use this context to inform your response.''\<rparr>]
          else [])
       @ map (\<lambda>m. \<lparr>llm_role = role m, llm_content = content m\<rparr>) own
     \<and> (\<forall>m \<in> set (map (\<lambda>m. \<lparr>llm_role = role m, llm_content = content m\<rparr>)
                      (filter (\<lambda>m. role m = User \<or> role m = Assistant) (ms1 @ ms2))).
           llm_role m \<noteq> System)
     \<and> (\<forall>ns'. distinct (map node_id ns) \<and> mset ns' = mset ns \<longrightarrow>
           getContextFromDonorNodes r ns' es = getContextFromDonorNodes r ns es)"
proof (intro conjI allI impI)
  show "build_llm_messages sp (getContextFromDonorNodes r ns es) rag own =
       (if sp \<noteq> [] then [\<lparr>llm_role = System, llm_content = sp\<rparr>] else [])
       @ [\<lparr>llm_role = System,
           llm_content = ''Context from '' @ [CHR 0x22] @ title1 @ [CHR 0x22] @ '' (donor node):''\<rparr>]
       @ map (\<lambda>m. \<lparr>llm_role = role m, llm_content = content m\<rparr>)
           (filter (\<lambda>m. role m = User \<or> role m = Assistant) ms1)
       @ [\<lparr>llm_role = System, llm_content = ''---''\<rparr>]
       @ [\<lparr>llm_role = System,
           llm_content = ''Context from '' @ [CHR 0x22] @ title2 @ [CHR 0x22] @ '' (donor node):''\<rparr>]
       @ map (\<lambda>m. \<lparr>llm_role = role m, llm_content = content m\<rparr>)
           (filter (\<lambda>m. role m = User \<or> role m = Assistant) ms2)
       @ [\<lparr>llm_role = System,
           llm_content = ''--- End of donor context. Continue the conversation below. ---''\<rparr>]
       @ (if rag \<noteq> [] then
            [\<lparr>llm_role = System,
              llm_content = ''The following context is retrieved from attached memory nodes:'' @ rag
                @ [CHR 0x0A, CHR 0x0A] @ ''Use this context to inform your response.''\<rparr>]
          else [])
       @ map (\<lambda>m. \<lparr>llm_role = role m, llm_content = content m\<rparr>) own"
    unfolding two_donors [OF assms(1-5)] build_two_donors
    by (simp add: donor_header_def donor_separator_def end_of_donor_context_def
        rag_system_message_def forwarded_def donor_of_def assms(6-9))
next
  show "\<forall>m \<in> set (map (\<lambda>m. \<lparr>llm_role = role m, llm_content = content m\<rparr>)
                      (filter (\<lambda>m. role m = User \<or> role m = Assistant) (ms1 @ ms2))).
           llm_role m \<noteq> System"
    by auto
next
  fix ns' assume "distinct (map node_id ns) \<and> mset ns' = mset ns"
  then show "getContextFromDonorNodes r ns' es = getContextFromDonorNodes r ns es"
    by (intro donors_node_order) simp_all
qed

theorem donor_context_transcript_witness:
  "build_llm_messages ''P'' (getContextFromDonorNodes ''r'' donor_example_nodes donor_example_edges) []
       [example_message User ''q'']
     = [\<lparr>llm_role = System, llm_content = ''P''\<rparr>,
        \<lparr>llm_role = System,
         llm_content = ''Context from '' @ [CHR 0x22] @ ''A'' @ [CHR 0x22] @ '' (donor node):''\<rparr>,
        \<lparr>llm_role = User, llm_content = ''u1''\<rparr>, \<lparr>llm_role = Assistant, llm_content = ''a1''\<rparr>,
        \<lparr>llm_role = System, llm_content = ''---''\<rparr>,
        \<lparr>llm_role = System,
         llm_content = ''Context from '' @ [CHR 0x22] @ ''B'' @ [CHR 0x22] @ '' (donor node):''\<rparr>,
        \<lparr>llm_role = User, llm_content = ''u2''\<rparr>,
        \<lparr>llm_role = System,
         llm_content = ''--- End of donor context. Continue the conversation below. ---''\<rparr>,
        \<lparr>llm_role = User, llm_content = ''q''\<rparr>]
   \<and> getContextFromDonorNodes ''r'' (rev donor_example_nodes) donor_example_edges
     = getContextFromDonorNodes ''r'' donor_example_nodes donor_example_edges"
proof -
  let ?d1 = "example_node ''d1'' Chat
        (empty_data\<lparr>title := Some ''A'',
           messages := Some [example_message System ''s0'', example_message User ''u1'',
                             example_message Assistant ''a1'']\<rparr>)"
  let ?d2 = "example_node ''d2'' Chat
        (empty_data\<lparr>title := Some ''B'', messages := Some [example_message User ''u2'']\<rparr>)"
  let ?e1 = "\<lparr>edge_id = ''e1'', source = ''d1'', target = ''r'', edge_type = Some Context\<rparr>"
  let ?e2 = "\<lparr>edge_id = ''e2'', source = ''d2'', target = ''r'', edge_type = Some Context\<rparr>"
  have es: "filter (\<lambda>e. edge_type e = Some Context) (filter (\<lambda>e. target e = ''r'') donor_example_edges)
      = [?e1, ?e2]"
    by (simp add: donor_example_edges_def)
  have f1: "find (\<lambda>n. node_id n = source ?e1) donor_example_nodes = Some ?d1"
    by (simp add: donor_example_nodes_def example_node_def)
  have f2: "find (\<lambda>n. node_id n = source ?e2) donor_example_nodes = Some ?d2"
    by (simp add: donor_example_nodes_def example_node_def)
  have t1: "node_type ?d1 = Some Chat" and t2: "node_type ?d2 = Some Chat"
    by (simp_all add: example_node_def)
  have n1: "''A'' = (case title (data ?d1) of None \<Rightarrow> ''Untitled''
      | Some t \<Rightarrow> if t = [] then ''Untitled'' else t)"
    and n2: "''B'' = (case title (data ?d2) of None \<Rightarrow> ''Untitled''
      | Some t \<Rightarrow> if t = [] then ''Untitled'' else t)"
    by (simp_all add: example_node_def empty_data_def)
  have m1: "[example_message System ''s0'', example_message User ''u1'', example_message Assistant ''a1'']
      = (case messages (data ?d1) of None \<Rightarrow> [] | Some ms \<Rightarrow> ms)"
    and m2: "[example_message User ''u2''] = (case messages (data ?d2) of None \<Rightarrow> [] | Some ms \<Rightarrow> ms)"
    by (simp_all add: example_node_def empty_data_def)
  note t = donor_context_transcript [OF es f1 t1 f2 t2 n1 n2 m1 m2,
      of "''P''" "[]" "[example_message User ''q'']"]
  have dist: "distinct (map node_id donor_example_nodes)"
    by (simp add: donor_example_nodes_def example_node_def)
  have a: "build_llm_messages ''P'' (getContextFromDonorNodes ''r'' donor_example_nodes donor_example_edges) []
       [example_message User ''q'']
     = [\<lparr>llm_role = System, llm_content = ''P''\<rparr>,
        \<lparr>llm_role = System,
         llm_content = ''Context from '' @ [CHR 0x22] @ ''A'' @ [CHR 0x22] @ '' (donor node):''\<rparr>,
        \<lparr>llm_role = User, llm_content = ''u1''\<rparr>, \<lparr>llm_role = Assistant, llm_content = ''a1''\<rparr>,
        \<lparr>llm_role = System, llm_content = ''---''\<rparr>,
        \<lparr>llm_role = System,
         llm_content = ''Context from '' @ [CHR 0x22] @ ''B'' @ [CHR 0x22] @ '' (donor node):''\<rparr>,
        \<lparr>llm_role = User, llm_content = ''u2''\<rparr>,
        \<lparr>llm_role = System,
         llm_content = ''--- End of donor context. Continue the conversation below. ---''\<rparr>,
        \<lparr>llm_role = User, llm_content = ''q''\<rparr>]"
    unfolding t [THEN conjunct1] by (simp add: example_message_def)
  have "mset (rev donor_example_nodes) = mset donor_example_nodes" by simp
  with t [THEN conjunct2, THEN conjunct2] dist
  have b: "getContextFromDonorNodes ''r'' (rev donor_example_nodes) donor_example_edges
     = getContextFromDonorNodes ''r'' donor_example_nodes donor_example_edges"
    by blast
  from a b show ?thesis by blast
qed

section \<open>Properties of the retrieval\<close>

lemma query_all_concat:
  "query_all storage q attached acc = acc @ concat (map (query_memory_node storage q) attached)"
  by (induction attached arbitrary: acc) simp_all

lemma length_search_le:
  "search chunks q topK = Inr rs \<Longrightarrow> length rs \<le> topK"
  by (auto simp: search_def split: if_splits sum.splits)

lemma length_query_memory_node: "length (query_memory_node storage q memoryNodeId) \<le> 3"
  by (auto simp: query_memory_node_def dest: length_search_le split: option.splits sum.splits)

lemma query_memory_node_scores:
  "getVectorStore storage memoryNodeId = Some storeData \<Longrightarrow>
   search (documents storeData) q 3 = Inr results \<Longrightarrow>
     map rag_score (query_memory_node storage q memoryNodeId) = map score results
     \<and> map rag_content (query_memory_node storage q memoryNodeId) = map (chunk_content \<circ> chunk) results"
  by (simp add: query_memory_node_def comp_def)

lemma top_results_sorted: "sorted_wrt (\<ge>) (map rag_score (top_results allResults))"
proof -
  have "sorted (map (\<lambda>r. - rag_score r) (sort_key (\<lambda>r. - rag_score r) allResults))"
    by simp
  then have "sorted_wrt (\<ge>) (map rag_score (sort_key (\<lambda>r. - rag_score r) allResults))"
    by (simp add: sorted_wrt_map)
  then show ?thesis
    unfolding top_results_def take_map [symmetric] by (rule sorted_wrt_take)
qed

lemma top_results_length: "length (top_results allResults) = min 5 (length allResults)"
  by (simp add: top_results_def min.commute)

lemma top_results_split:
  "mset (top_results allResults) + mset (drop 5 (sort_key (\<lambda>r. - rag_score r) allResults))
     = mset allResults"
proof -
  let ?s = "sort_key (\<lambda>r. - rag_score r) allResults"
  have "mset (take 5 ?s) + mset (drop 5 ?s) = mset ?s"
    by (metis append_take_drop_id mset_append)
  then show ?thesis by (simp add: top_results_def)
qed

lemma top_results_best:
  assumes "kept \<in> set (top_results allResults)"
    and "dropped \<in># mset allResults - mset (top_results allResults)"
  shows "rag_score dropped \<le> rag_score kept"
proof -
  let ?s = "sort_key (\<lambda>r. - rag_score r) allResults"
  have "mset allResults - mset (top_results allResults) = mset (drop 5 ?s)"
    using top_results_split [of allResults] by (metis add_diff_cancel_left')
  with assms(2) have d: "dropped \<in> set (drop 5 ?s)" by simp
  have "sorted_wrt (\<lambda>x y. rag_score y \<le> rag_score x) ?s"
    using sorted_sort_key [of "\<lambda>r. - rag_score r" allResults] by (simp add: sorted_wrt_map sorted_map)
  then have "sorted_wrt (\<lambda>x y. rag_score y \<le> rag_score x) (take 5 ?s @ drop 5 ?s)"
    by simp
  then have "\<forall>x \<in> set (take 5 ?s). \<forall>y \<in> set (drop 5 ?s). rag_score y \<le> rag_score x"
    by (simp only: sorted_wrt_append) blast
  with assms(1) d show ?thesis by (simp add: top_results_def)
qed

lemma map_insort_key: "map f (insort_key f x xs) = insort (f x) (map f xs)"
  by (induction xs) simp_all

lemma map_sort_key: "map f (sort_key f xs) = sort (map f xs)"
  by (induction xs) (simp_all add: map_insort_key)

lemma scores_sort_key:
  "map rag_score (sort_key (\<lambda>r. - rag_score r) rs) = map uminus (sort (map (\<lambda>r. - rag_score r) rs))"
proof -
  have "map uminus (map (\<lambda>r. - rag_score r) (sort_key (\<lambda>r. - rag_score r) rs))
      = map uminus (sort (map (\<lambda>r. - rag_score r) rs))"
    by (simp only: map_sort_key)
  then show ?thesis by (simp add: comp_def)
qed

lemma merge_example:
  assumes "map rag_score rs1 = [0.9, 0.4, 0.2]" "map rag_score rs2 = [0.8, 0.3]"
  shows "map rag_score (top_results (rs1 @ rs2)) = [0.9, 0.8, 0.4, 0.3, 0.2]"
proof -
  have "map (\<lambda>r. - rag_score r) (rs1 @ rs2) = map uminus (map rag_score rs1 @ map rag_score rs2)"
    by (simp add: comp_def)
  also have "\<dots> = [- 0.9, - 0.4, - 0.2, - 0.8, - 0.3]"
    by (simp add: assms)
  finally have "map rag_score (sort_key (\<lambda>r. - rag_score r) (rs1 @ rs2))
      = map uminus (sort [- 0.9, - 0.4, - 0.2, - 0.8, - 0.3 :: real])"
    by (simp only: scores_sort_key)
  also have "\<dots> = [0.9, 0.8, 0.4, 0.3, 0.2]"
    by simp
  finally show ?thesis
    by (simp add: top_results_def take_map [symmetric])
qed


text \<open>
  C4. With at least one attached memory node and a query that is not blank, the retrieval
  step searches the index of each attached node with \<open>topK = 3\<close> and the one query
  embedding (so each index contributes at most 3 results, with the scores of its search),
  concatenates the results in the order of the attached nodes, sorts them by descending
  score and keeps the first 5: all of them when there are at most 5, and otherwise 5 results
  none of which scores below a dropped one. Per-index scores \<open>[0.9, 0.4, 0.2]\<close> and
  \<open>[0.8, 0.3]\<close> give the merged order \<open>[0.9, 0.8, 0.4, 0.3, 0.2]\<close>.
\<close>

theorem rag_merge:
  "query_all storage q attached [] = concat (map (query_memory_node storage q) attached)
   \<and> length (query_memory_node storage q memoryNodeId) \<le> 3
   \<and> (getVectorStore storage memoryNodeId = Some storeData
        \<and> search (documents storeData) q 3 = Inr results \<longrightarrow>
        map rag_score (query_memory_node storage q memoryNodeId) = map score results
        \<and> map rag_content (query_memory_node storage q memoryNodeId)
            = map (chunk_content \<circ> chunk) results)
   \<and> (attached \<noteq> [] \<and> trim query \<noteq> [] \<longrightarrow>
        rag_query storage attached query (Some q)
          = top_results (concat (map (query_memory_node storage q) attached)))
   \<and> length (top_results allResults) = min 5 (length allResults)
   \<and> sorted_wrt (\<ge>) (map rag_score (top_results allResults))
   \<and> mset (top_results allResults) \<subseteq># mset allResults
   \<and> (\<forall>kept \<in> set (top_results allResults).
        \<forall>dropped \<in># mset allResults - mset (top_results allResults).
          rag_score dropped \<le> rag_score kept)
   \<and> (map rag_score rs1 = [0.9, 0.4, 0.2] \<and> map rag_score rs2 = [0.8, 0.3] \<longrightarrow>
        map rag_score (top_results (rs1 @ rs2)) = [0.9, 0.8, 0.4, 0.3, 0.2])"
proof (intro conjI impI ballI)
  show "query_all storage q attached [] = concat (map (query_memory_node storage q) attached)"
    by (simp add: query_all_concat)
  show "length (query_memory_node storage q memoryNodeId) \<le> 3"
    by (rule length_query_memory_node)
  show "length (top_results allResults) = min 5 (length allResults)"
    by (rule top_results_length)
  show "sorted_wrt (\<ge>) (map rag_score (top_results allResults))"
    by (rule top_results_sorted)
  show "mset (top_results allResults) \<subseteq># mset allResults"
    using top_results_split [of allResults] by (metis mset_subset_eq_add_left)
next
  assume a: "getVectorStore storage memoryNodeId = Some storeData
        \<and> search (documents storeData) q 3 = Inr results"
  then show "map rag_score (query_memory_node storage q memoryNodeId) = map score results"
    using query_memory_node_scores by blast
  from a show "map rag_content (query_memory_node storage q memoryNodeId)
            = map (chunk_content \<circ> chunk) results"
    using query_memory_node_scores by blast
next
  assume "attached \<noteq> [] \<and> trim query \<noteq> []"
  then show "rag_query storage attached query (Some q)
          = top_results (concat (map (query_memory_node storage q) attached))"
    by (simp add: rag_query_def query_all_concat)
next
  fix kept dropped
  assume "kept \<in> set (top_results allResults)"
    "dropped \<in># mset allResults - mset (top_results allResults)"
  then show "rag_score dropped \<le> rag_score kept" by (rule top_results_best)
next
  assume "map rag_score rs1 = [0.9, 0.4, 0.2] \<and> map rag_score rs2 = [0.8, 0.3]"
  then show "map rag_score (top_results (rs1 @ rs2)) = [0.9, 0.8, 0.4, 0.3, 0.2]"
    by (intro merge_example) simp_all
qed


lemma sqrt_100: "sqrt 100 = 10"
  by (rule real_sqrt_unique) simp_all

lemma cosine_examples:
  "cosineSimilarity [1, 0, 0, 0] [9, 3, 3, 1] = Inr (9 / 10)"
  "cosineSimilarity [1, 0, 0, 0] [4, 8, 4, 2] = Inr (4 / 10)"
  "cosineSimilarity [1, 0, 0, 0] [2, 8, 4, 4] = Inr (2 / 10)"
  "cosineSimilarity [1, 0, 0, 0] [8, 6, 0, 0] = Inr (8 / 10)"
  "cosineSimilarity [1, 0, 0, 0] [3, 9, 3, 1] = Inr (3 / 10)"
  by (simp_all add: cosineSimilarity_eq euclidean_norm_def dot_product_def lessThan_Suc
      eval_nat_numeral sqrt_100)

lemma query_m1:
  "query_memory_node rag_example_storage [1, 0, 0, 0] ''m1'' =
     [\<lparr>rag_content = ''a'', rag_score = 9 / 10, rag_source = ''m1'', rag_metadata = []\<rparr>,
      \<lparr>rag_content = ''b'', rag_score = 4 / 10, rag_source = ''m1'', rag_metadata = []\<rparr>,
      \<lparr>rag_content = ''c'', rag_score = 2 / 10, rag_source = ''m1'', rag_metadata = []\<rparr>]"
  by (simp add: query_memory_node_def getVectorStore_def rag_example_storage_def example_store_def
      example_chunk_def search_def sort_by_score_desc_def cosine_examples)

lemma query_m2:
  "query_memory_node rag_example_storage [1, 0, 0, 0] ''m2'' =
     [\<lparr>rag_content = ''d'', rag_score = 8 / 10, rag_source = ''m2'', rag_metadata = []\<rparr>,
      \<lparr>rag_content = ''e'', rag_score = 3 / 10, rag_source = ''m2'', rag_metadata = []\<rparr>]"
  by (simp add: query_memory_node_def getVectorStore_def rag_example_storage_def example_store_def
      example_chunk_def search_def sort_by_score_desc_def cosine_examples)

lemma trim_query: "trim ''query'' \<noteq> []"
  by (simp add: trim_def is_whitespace_def)

theorem rag_merge_witness:
  "map rag_score (query_memory_node rag_example_storage [1, 0, 0, 0] ''m1'') = [0.9, 0.4, 0.2]
   \<and> map rag_score (query_memory_node rag_example_storage [1, 0, 0, 0] ''m2'') = [0.8, 0.3]
   \<and> map rag_score (rag_query rag_example_storage [''m1'', ''m2''] ''query'' (Some [1, 0, 0, 0]))
       = [0.9, 0.8, 0.4, 0.3, 0.2]
   \<and> map rag_content (rag_query rag_example_storage [''m1'', ''m2''] ''query'' (Some [1, 0, 0, 0]))
       = [''a'', ''d'', ''b'', ''e'', ''c'']"
proof -
  let ?q = "[1, 0, 0, 0] :: real list"
  let ?rs1 = "query_memory_node rag_example_storage ?q ''m1''"
  let ?rs2 = "query_memory_node rag_example_storage ?q ''m2''"
  note t = rag_merge [where storage = rag_example_storage and q = ?q and attached = "[''m1'', ''m2'']"
      and query = "''query''" and ?rs1.0 = ?rs1 and ?rs2.0 = ?rs2]
  have s1: "map rag_score ?rs1 = [0.9, 0.4, 0.2]" by (simp add: query_m1)
  have s2: "map rag_score ?rs2 = [0.8, 0.3]" by (simp add: query_m2)
  note t4 = t [THEN conjunct2, THEN conjunct2, THEN conjunct2, THEN conjunct1]
  note t9 = t [THEN conjunct2, THEN conjunct2, THEN conjunct2, THEN conjunct2, THEN conjunct2,
      THEN conjunct2, THEN conjunct2, THEN conjunct2]
  from t4 trim_query have q: "rag_query rag_example_storage [''m1'', ''m2''] ''query'' (Some ?q)
      = top_results (?rs1 @ ?rs2)"
    by simp
  from t9 s1 s2 have m: "map rag_score (top_results (?rs1 @ ?rs2)) = [0.9, 0.8, 0.4, 0.3, 0.2]"
    by blast
  have c: "map rag_content (top_results (?rs1 @ ?rs2)) = [''a'', ''d'', ''b'', ''e'', ''c'']"
    by (simp add: query_m1 query_m2 top_results_def)
  from s1 s2 m c show ?thesis
    by (simp only: q simp_thms)
qed


section \<open>Properties of the streaming\<close>

lemma accumulated_simps:
  "accumulated [] = []" "accumulated (c # cs) = delta (snd c) @ accumulated cs"
  by (simp_all add: accumulated_def)

lemma accumulated_empty: "\<forall>c \<in> set chunks. delta (snd c) = [] \<Longrightarrow> accumulated chunks = []"
  by (induction chunks) (simp_all add: accumulated_simps)

text \<open>The canvas chat node.\<close>

lemma stream_chat_node_state:
  assumes "\<forall>c \<in> set (butlast chunks). \<not> final (snd c)"
  shows "fst (stream_chat_node um chunks (full, shown)) = full @ accumulated chunks
     \<and> ((\<forall>c \<in> set chunks. delta (snd c) = []) \<longrightarrow>
          snd (stream_chat_node um chunks (full, shown)) = shown)
     \<and> ((\<exists>c \<in> set chunks. delta (snd c) \<noteq> []) \<longrightarrow>
          (\<exists>t. snd (stream_chat_node um chunks (full, shown)) =
             um @ [\<lparr>role = Assistant, content = full @ accumulated chunks, timestamp = t\<rparr>]))"
  using assms
proof (induction chunks arbitrary: full shown)
  case Nil
  then show ?case by (simp add: accumulated_simps)
next
  case (Cons c rest)
  obtain now ch where c: "c = (now, ch)" by (cases c)
  show ?case
  proof (cases "rest = []")
    case True
    then show ?thesis
      by (simp add: c receive_chunk_def accumulated_simps Let_def)
  next
    case False
    with Cons.prems have nf: "\<not> final ch" and rest: "\<forall>c \<in> set (butlast rest). \<not> final (snd c)"
      by (simp_all add: c)
    show ?thesis
    proof (cases "delta ch = []")
      case True
      with nf Cons.IH [OF rest, of full shown] show ?thesis
        by (simp add: c receive_chunk_def accumulated_simps Let_def)
    next
      case ne: False
      let ?full = "full @ delta ch"
      let ?shown = "um @ [\<lparr>role = Assistant, content = full @ delta ch, timestamp = now\<rparr>]"
      have step: "stream_chat_node um (c # rest) (full, shown) = stream_chat_node um rest (?full, ?shown)"
        using nf ne by (simp add: c receive_chunk_def Let_def)
      note IH = Cons.IH [OF rest, of ?full ?shown]
      have acc: "full @ accumulated (c # rest) = ?full @ accumulated rest"
        by (simp add: c accumulated_simps)
      have "\<exists>t. snd (stream_chat_node um rest (?full, ?shown)) =
             um @ [\<lparr>role = Assistant, content = ?full @ accumulated rest, timestamp = t\<rparr>]"
      proof (cases "\<forall>c \<in> set rest. delta (snd c) = []")
        case True
        with IH have "snd (stream_chat_node um rest (?full, ?shown)) = ?shown" by blast
        with True show ?thesis by (simp add: accumulated_empty)
      next
        case False
        with IH show ?thesis by blast
      qed
      with IH ne show ?thesis
        unfolding step acc by (auto simp: c)
    qed
  qed
qed


text \<open>The chat store.\<close>

lemma updateLastMessage_push:
  assumes "chat_messages chat = before" "before = [] \<or> role (last before) \<noteq> Assistant"
  shows "updateLastMessage now new (Some chat) =
     Some (chat\<lparr>chat_messages := before @ [\<lparr>role = Assistant, content = new, timestamp = now\<rparr>],
                chat_updatedAt := now\<rparr>)"
  using assms by (auto simp: updateLastMessage_def Let_def last_conv_nth)

lemma updateLastMessage_replace:
  assumes "chat_messages chat = before @ [\<lparr>role = Assistant, content = c0, timestamp = t0\<rparr>]"
  shows "updateLastMessage now new (Some chat) =
     Some (chat\<lparr>chat_messages := before @ [\<lparr>role = Assistant, content = new, timestamp = t0\<rparr>],
                chat_updatedAt := now\<rparr>)"
  using assms by (simp add: updateLastMessage_def Let_def nth_append)

lemma updateLastMessage_last:
  "\<exists>chat'. updateLastMessage now new (Some chat) = Some chat' \<and> chat_messages chat' \<noteq> []
     \<and> role (last (chat_messages chat')) = Assistant \<and> content (last (chat_messages chat')) = new
     \<and> (butlast (chat_messages chat') = butlast (chat_messages chat)
          \<or> butlast (chat_messages chat') = chat_messages chat)"
proof (cases "chat_messages chat = [] \<or> role (last (chat_messages chat)) \<noteq> Assistant")
  case True
  then show ?thesis
    using updateLastMessage_push [OF refl, of chat now new] by auto
next
  case False
  then obtain before m where m: "chat_messages chat = before @ [m]" "role m = Assistant"
    by (metis append_butlast_last_id last_snoc)
  then have "chat_messages chat = before @ [\<lparr>role = Assistant, content = content m, timestamp = timestamp m\<rparr>]"
    by (cases m) simp
  from updateLastMessage_replace [OF this, of now new] m show ?thesis by auto
qed

lemma stream_chat_mode_replace:
  assumes "\<forall>c \<in> set (butlast chunks). \<not> final (snd c)"
    and "chat_messages chat = before @ [\<lparr>role = Assistant, content = c0, timestamp = t0\<rparr>]"
  shows "\<exists>chat'. stream_chat_mode chunks (full, Some chat) = (full @ accumulated chunks, Some chat')
     \<and> chat_messages chat' =
         before @ [\<lparr>role = Assistant,
                    content = (if \<forall>c \<in> set chunks. delta (snd c) = [] then c0 else full @ accumulated chunks),
                    timestamp = t0\<rparr>]"
  using assms
proof (induction chunks arbitrary: full chat c0)
  case Nil
  then show ?case by (simp add: accumulated_simps)
next
  case (Cons c rest)
  obtain now ch where c: "c = (now, ch)" by (cases c)
  let ?chat = "chat\<lparr>chat_messages := before @ [\<lparr>role = Assistant, content = full @ delta ch, timestamp = t0\<rparr>],
                chat_updatedAt := now\<rparr>"
  have upd: "updateLastMessage now (full @ delta ch) (Some chat) = Some ?chat"
    by (rule updateLastMessage_replace [OF Cons.prems(2)])
  show ?case
  proof (cases "rest = []")
    case True
    then show ?thesis
      using Cons.prems(2) by (simp add: c receive_chunk_chat_def accumulated_simps Let_def upd)
  next
    case False
    with Cons.prems have nf: "\<not> final ch" and rest: "\<forall>c \<in> set (butlast rest). \<not> final (snd c)"
      by (simp_all add: c)
    show ?thesis
    proof (cases "delta ch = []")
      case True
      from Cons.IH [OF rest Cons.prems(2), of full] obtain chat' where
        "stream_chat_mode rest (full, Some chat) = (full @ accumulated rest, Some chat')"
        "chat_messages chat' =
           before @ [\<lparr>role = Assistant,
              content = (if \<forall>c \<in> set rest. delta (snd c) = [] then c0 else full @ accumulated rest),
              timestamp = t0\<rparr>]"
        by blast
      with nf True show ?thesis
        by (simp add: c receive_chunk_chat_def accumulated_simps Let_def)
    next
      case ne: False
      have step: "stream_chat_mode (c # rest) (full, Some chat)
          = stream_chat_mode rest (full @ delta ch, Some ?chat)"
        using nf ne by (simp add: c receive_chunk_chat_def Let_def upd)
      have m: "chat_messages ?chat = before @ [\<lparr>role = Assistant, content = full @ delta ch, timestamp = t0\<rparr>]"
        by simp
      from Cons.IH [OF rest m, of "full @ delta ch"] obtain chat' where
        r: "stream_chat_mode rest (full @ delta ch, Some ?chat)
              = ((full @ delta ch) @ accumulated rest, Some chat')"
        and ms: "chat_messages chat' =
           before @ [\<lparr>role = Assistant,
              content = (if \<forall>c \<in> set rest. delta (snd c) = [] then full @ delta ch
                         else (full @ delta ch) @ accumulated rest),
              timestamp = t0\<rparr>]"
        by blast
      have "(if \<forall>c \<in> set rest. delta (snd c) = [] then full @ delta ch
             else (full @ delta ch) @ accumulated rest) = full @ accumulated (c # rest)"
        by (simp add: c accumulated_simps accumulated_empty)
      with r ms ne show ?thesis
        unfolding step by (simp add: c accumulated_simps)
    qed
  qed
qed

lemma stream_chat_mode_state:
  assumes "\<forall>c \<in> set (butlast chunks). \<not> final (snd c)"
    and "chat_messages chat = before" "before = [] \<or> role (last before) \<noteq> Assistant"
  shows "fst (stream_chat_mode chunks (full, Some chat)) = full @ accumulated chunks
     \<and> ((\<forall>c \<in> set chunks. delta (snd c) = []) \<longrightarrow>
          snd (stream_chat_mode chunks (full, Some chat)) = Some chat)
     \<and> ((\<exists>c \<in> set chunks. delta (snd c) \<noteq> []) \<longrightarrow>
          (\<exists>chat' t. snd (stream_chat_mode chunks (full, Some chat)) = Some chat'
             \<and> chat_messages chat' =
                 before @ [\<lparr>role = Assistant, content = full @ accumulated chunks, timestamp = t\<rparr>]))"
  using assms
proof (induction chunks arbitrary: full)
  case Nil
  then show ?case by (simp add: accumulated_simps)
next
  case (Cons c rest)
  obtain now ch where c: "c = (now, ch)" by (cases c)
  let ?chat = "chat\<lparr>chat_messages := before @ [\<lparr>role = Assistant, content = full @ delta ch, timestamp = now\<rparr>],
                chat_updatedAt := now\<rparr>"
  have upd: "updateLastMessage now (full @ delta ch) (Some chat) = Some ?chat"
    by (rule updateLastMessage_push [OF Cons.prems(2,3)])
  show ?case
  proof (cases "delta ch = []")
    case True
    show ?thesis
    proof (cases "rest = []")
      case r: True
      with True show ?thesis
        by (simp add: c receive_chunk_chat_def accumulated_simps Let_def)
    next
      case False
      with Cons.prems have nf: "\<not> final ch" and rest: "\<forall>c \<in> set (butlast rest). \<not> final (snd c)"
        by (simp_all add: c)
      with True Cons.IH [OF rest Cons.prems(2,3), of full] show ?thesis
        by (simp add: c receive_chunk_chat_def accumulated_simps Let_def)
    qed
  next
    case ne: False
    have m: "chat_messages ?chat = before @ [\<lparr>role = Assistant, content = full @ delta ch, timestamp = now\<rparr>]"
      by simp
    show ?thesis
    proof (cases "rest = []")
      case True
      with ne show ?thesis
        by (auto simp: c receive_chunk_chat_def accumulated_simps Let_def upd)
    next
      case False
      with Cons.prems have nf: "\<not> final ch" and rest: "\<forall>c \<in> set (butlast rest). \<not> final (snd c)"
        by (simp_all add: c)
      have step: "stream_chat_mode (c # rest) (full, Some chat)
          = stream_chat_mode rest (full @ delta ch, Some ?chat)"
        using nf ne by (simp add: c receive_chunk_chat_def Let_def upd)
      from stream_chat_mode_replace [OF rest m, of "full @ delta ch"] obtain chat' where
        r: "stream_chat_mode rest (full @ delta ch, Some ?chat)
              = ((full @ delta ch) @ accumulated rest, Some chat')"
        and ms: "chat_messages chat' =
           before @ [\<lparr>role = Assistant,
              content = (if \<forall>c \<in> set rest. delta (snd c) = [] then full @ delta ch
                         else (full @ delta ch) @ accumulated rest),
              timestamp = now\<rparr>]"
        by blast
      have "(if \<forall>c \<in> set rest. delta (snd c) = [] then full @ delta ch
             else (full @ delta ch) @ accumulated rest) = full @ accumulated (c # rest)"
        by (simp add: c accumulated_simps accumulated_empty)
      with r ms ne show ?thesis
        unfolding step by (auto simp: c accumulated_simps)
    qed
  qed
qed


text \<open>
  C2, as amended. The provider's deltas are increments, and the caller concatenates them
  in its local \<open>fullContent\<close>. While a completion is streamed (no chunk before the last one
  received is final) and at least one delta was not empty, the assistant message shown by
  the canvas chat node, and the last message of the chat store, hold the concatenation of
  all deltas received so far; they follow the messages that were there before the stream.
  \<open>updateLastMessage\<close> replaces the content of a trailing assistant message wholesale by its
  argument, or appends an assistant message with that content, and never appends to the
  stored content.
\<close>

theorem streaming_accumulates_deltas:
  assumes "\<forall>c \<in> set (butlast chunks). \<not> final (snd c)"
    and "\<exists>c \<in> set chunks. delta (snd c) \<noteq> []"
    and "chat_messages chat = [] \<or> role (last (chat_messages chat)) \<noteq> Assistant"
  shows "(\<exists>t. stream_chat_node um chunks ([], um) =
            (accumulated chunks,
             um @ [\<lparr>role = Assistant, content = accumulated chunks, timestamp = t\<rparr>]))
     \<and> (\<exists>chat' t. stream_chat_mode chunks ([], Some chat) = (accumulated chunks, Some chat')
            \<and> chat_messages chat' =
                chat_messages chat @ [\<lparr>role = Assistant, content = accumulated chunks, timestamp = t\<rparr>])
     \<and> (\<exists>chat'. updateLastMessage now newContent (Some chat0) = Some chat'
            \<and> chat_messages chat' \<noteq> []
            \<and> role (last (chat_messages chat')) = Assistant
            \<and> content (last (chat_messages chat')) = newContent
            \<and> (butlast (chat_messages chat') = butlast (chat_messages chat0)
                 \<or> butlast (chat_messages chat') = chat_messages chat0))"
proof (intro conjI)
  from stream_chat_node_state [OF assms(1), of um "[]" um] assms(2)
  obtain t where "fst (stream_chat_node um chunks ([], um)) = accumulated chunks"
    "snd (stream_chat_node um chunks ([], um)) =
       um @ [\<lparr>role = Assistant, content = accumulated chunks, timestamp = t\<rparr>]"
    by auto
  then have "stream_chat_node um chunks ([], um) =
      (accumulated chunks, um @ [\<lparr>role = Assistant, content = accumulated chunks, timestamp = t\<rparr>])"
    by (metis prod.collapse)
  then show "\<exists>t. stream_chat_node um chunks ([], um) =
            (accumulated chunks,
             um @ [\<lparr>role = Assistant, content = accumulated chunks, timestamp = t\<rparr>])"
    by blast
next
  from stream_chat_mode_state [OF assms(1) refl assms(3), of "[]"] assms(2)
  obtain chat' t where "fst (stream_chat_mode chunks ([], Some chat)) = accumulated chunks"
    "snd (stream_chat_mode chunks ([], Some chat)) = Some chat'"
    "chat_messages chat' =
       chat_messages chat @ [\<lparr>role = Assistant, content = accumulated chunks, timestamp = t\<rparr>]"
    by auto
  moreover from this have "stream_chat_mode chunks ([], Some chat) = (accumulated chunks, Some chat')"
    by (metis prod.collapse)
  ultimately show "\<exists>chat' t. stream_chat_mode chunks ([], Some chat) = (accumulated chunks, Some chat')
            \<and> chat_messages chat' =
                chat_messages chat @ [\<lparr>role = Assistant, content = accumulated chunks, timestamp = t\<rparr>]"
    by blast
next
  show "\<exists>chat'. updateLastMessage now newContent (Some chat0) = Some chat'
            \<and> chat_messages chat' \<noteq> []
            \<and> role (last (chat_messages chat')) = Assistant
            \<and> content (last (chat_messages chat')) = newContent
            \<and> (butlast (chat_messages chat') = butlast (chat_messages chat0)
                 \<or> butlast (chat_messages chat') = chat_messages chat0)"
    by (rule updateLastMessage_last)
qed

theorem streaming_accumulates_deltas_witness:
  "accumulated example_stream = ''Hello''
   \<and> fst (stream_chat_node [example_message User ''hi''] example_stream ([], [example_message User ''hi'']))
       = ''Hello''
   \<and> map content (snd (stream_chat_node [example_message User ''hi''] example_stream
         ([], [example_message User ''hi'']))) = [''hi'', ''Hello'']
   \<and> fst (stream_chat_mode example_stream ([], Some example_chat)) = ''Hello''
   \<and> map_option (\<lambda>chat. map content (chat_messages chat))
         (snd (stream_chat_mode example_stream ([], Some example_chat))) = Some [''hi'', ''Hello'']
   \<and> map_option (\<lambda>chat. map content (chat_messages chat))
         (updateLastMessage 9 ''Hello'' (Some example_chat)) = Some [''hi'', ''Hello'']"
proof -
  let ?um = "[example_message User ''hi'']"
  have h1: "\<forall>c \<in> set (butlast example_stream). \<not> final (snd c)"
    by (simp add: example_stream_def)
  have h2: "\<exists>c \<in> set example_stream. delta (snd c) \<noteq> []"
    by (simp add: example_stream_def)
  have h3: "chat_messages example_chat = [] \<or> role (last (chat_messages example_chat)) \<noteq> Assistant"
    by (simp add: example_chat_def example_message_def)
  have acc: "accumulated example_stream = ''Hello''"
    by (simp add: accumulated_def example_stream_def)
  have msgs: "chat_messages example_chat = ?um"
    by (simp add: example_chat_def)
  note t = streaming_accumulates_deltas [OF h1 h2 h3, of ?um 9 "''Hello''" example_chat, unfolded acc msgs]
  from t obtain t1 where n: "stream_chat_node ?um example_stream ([], ?um) =
      (''Hello'', ?um @ [\<lparr>role = Assistant, content = ''Hello'', timestamp = t1\<rparr>])"
    by blast
  from t obtain chat' t2 where m: "stream_chat_mode example_stream ([], Some example_chat) = (''Hello'', Some chat')"
    "chat_messages chat' = ?um @ [\<lparr>role = Assistant, content = ''Hello'', timestamp = t2\<rparr>]"
    by blast
  have u: "map_option (\<lambda>chat. map content (chat_messages chat))
         (updateLastMessage 9 ''Hello'' (Some example_chat)) = Some [''hi'', ''Hello'']"
    by (simp add: updateLastMessage_def example_chat_def example_message_def Let_def)
  from acc n m u show ?thesis
    by (simp add: example_message_def)
qed

theorem streaming_delta_counterexample:
  "delta (snd (example_stream ! 1)) = ''llo''
   \<and> map content (snd (stream_chat_node [example_message User ''hi''] (take 2 example_stream)
         ([], [example_message User ''hi'']))) = [''hi'', ''Hello'']
   \<and> map_option (\<lambda>chat. map content (chat_messages chat))
         (snd (stream_chat_mode (take 2 example_stream) ([], Some example_chat))) = Some [''hi'', ''Hello'']
   \<and> ''Hello'' \<noteq> ''llo''"
  by (simp add: example_stream_def example_chat_def example_message_def receive_chunk_def
      receive_chunk_chat_def updateLastMessage_def Let_def)

end
